theory Spec2Isabelle
  imports Complex_Main
begin

section \<open>Python string primitives used by the parsers\<close>

text \<open>
  Both parsers are Python 2 scripts working on byte strings. The few string methods they
  call are written out here: \<open>str.startswith\<close>, \<open>str.strip()\<close> (whitespace),
  \<open>str.strip(chars)\<close>, \<open>str.split(sep)\<close>, \<open>str.replace\<close>, \<open>str.lower\<close>, the
  substring test \<open>a in b\<close> and slices.
\<close>

definition TAB :: string where
  "TAB = [CHR 0x09]"

definition NL :: string where
  "NL = [CHR 0x0A]"

definition is_space :: "char \<Rightarrow> bool" where
  \<comment> \<open>\<open>string.whitespace\<close>: space, tab, newline, vertical tab, form feed, carriage return\<close>
  "is_space c = (c \<in> set [CHR '' '', CHR 0x09, CHR 0x0A, CHR 0x0B, CHR 0x0C, CHR 0x0D])"

definition startswith :: "string \<Rightarrow> string \<Rightarrow> bool" where
  "startswith s p = (take (length p) s = p)"

definition strip_chars :: "(char \<Rightarrow> bool) \<Rightarrow> string \<Rightarrow> string" where
  "strip_chars P s = rev (dropWhile P (rev (dropWhile P s)))"

definition py_strip :: "string \<Rightarrow> string" where
  \<comment> \<open>\<open>s.strip()\<close>\<close>
  "py_strip s = strip_chars is_space s"

function py_split :: "string \<Rightarrow> string \<Rightarrow> string list" where
  \<comment> \<open>\<open>s.split(sep)\<close> for a non-empty separator: cut at each leftmost occurrence, scanning on
     after it; the result always has at least one field\<close>
  "py_split sep [] = [[]]"
| "py_split sep (c # cs) =
     (if sep \<noteq> [] \<and> startswith (c # cs) sep
      then [] # py_split sep (drop (length sep) (c # cs))
      else (case py_split sep cs of
              [] \<Rightarrow> [[c]]
            | w # ws \<Rightarrow> (c # w) # ws))"
  by pat_completeness auto
termination
  by (relation "measure (\<lambda>(sep, s). length s)") auto

section \<open>The tagtraum parser: \<open>msd_tagtraum_cd_parser.py\<close>\<close>

subsection \<open>\<open>load_tagtraum_dataset\<close>\<close>

text \<open>
  The loader keeps three variables while it reads the file line by line: the dictionary
  \<open>tagtraum_values\<close>, the set \<open>genres\<close> and the flag \<open>has_minority_genres\<close>. The
  calls of \<open>logging.warning\<close> are collected in \<open>warnings\<close> (the \<open>logging.info\<close>
  progress messages are left out). The file is given as the list of its lines, each as the
  file iterator yields it (with its line end).
\<close>

record load_state =
  tagtraum_values :: "string \<rightharpoonup> string list"
  genres :: "string set"
  has_minority_genres :: bool
  warnings :: "string list"

definition load_init :: load_state where
  "load_init = \<lparr>tagtraum_values = Map.empty, genres = {}, has_minority_genres = False,
                 warnings = []\<rparr>"

definition parse_failure :: "string \<Rightarrow> string" where
  \<comment> \<open>the message of the loader's \<open>logging.warning\<close>\<close>
  "parse_failure line = ''Failed to parse tagtraum dataset line: '' @ line"

definition load_line :: "string \<Rightarrow> load_state \<Rightarrow> load_state" where
  \<comment> \<open>the body of the \<open>for line in open(...)\<close> loop\<close>
  "load_line line st =
     (if \<not> startswith line ''#'' then
        (let tokens = py_split TAB (py_strip line) in
         if length tokens = 2 then
           (let track_id = tokens ! 0; genre = tokens ! 1 in
            st\<lparr>tagtraum_values := (tagtraum_values st)(track_id \<mapsto> [genre]),
               genres := insert genre (genres st)\<rparr>)
         else if length tokens = 3 then
           (let track_id = tokens ! 0; majority_genre = tokens ! 1;
                minority_genre = py_strip (tokens ! 2) in
            st\<lparr>tagtraum_values := (tagtraum_values st)(track_id \<mapsto> [majority_genre, minority_genre]),
               genres := insert minority_genre (insert majority_genre (genres st)),
               has_minority_genres := True\<rparr>)
         else
           st\<lparr>warnings := warnings st @ [parse_failure line]\<rparr>)
      else st)"

definition load_from :: "load_state \<Rightarrow> string list \<Rightarrow> load_state" where
  "load_from st lines = fold load_line lines st"

definition load_tagtraum_dataset :: "string list \<Rightarrow> load_state" where
  "load_tagtraum_dataset lines = load_from load_init lines"

definition parsed_line :: "string \<Rightarrow> (string \<times> string list) option" where
  \<comment> \<open>what one line contributes to \<open>tagtraum_values\<close>: the key and the vote list stored by
     \<open>load_line\<close>, or nothing for a comment or a line with another field count\<close>
  "parsed_line line =
     (if startswith line ''#'' then None
      else (let tokens = py_split TAB (py_strip line) in
            if length tokens = 2 then Some (tokens ! 0, [tokens ! 1])
            else if length tokens = 3 then Some (tokens ! 0, [tokens ! 1, py_strip (tokens ! 2)])
            else None))"

definition observed_genres :: "string list \<Rightarrow> string set" where
  \<comment> \<open>the distinct genre strings of all two- and three-field lines of the file\<close>
  "observed_genres lines =
     (\<Union>l \<in> set lines. case parsed_line l of None \<Rightarrow> {} | Some (t, v) \<Rightarrow> set v)"


definition thirteen :: "string list" where
  \<comment> \<open>a vote file with thirteen single-vote lines, one genre each\<close>
  "thirteen = map (\<lambda>g. ''T'' @ TAB @ [g] @ NL) ''ABCDEFGHIJKLM''"

subsection \<open>\<open>load_msd_metadata\<close>\<close>

definition msd_failure :: "string \<Rightarrow> string" where
  "msd_failure line = ''Failed to parse unique tracks line: '' @ line"

definition msd_line ::
  "(string \<rightharpoonup> string list) \<Rightarrow> string \<Rightarrow> (string \<rightharpoonup> string \<times> string) \<times> string list
     \<Rightarrow> (string \<rightharpoonup> string \<times> string) \<times> string list" where
  \<comment> \<open>one line of \<open>unique_tracks.txt\<close>; the state is \<open>unique_tracks_values\<close> and the warnings\<close>
  "msd_line tv line st =
     (let tokens = py_split ''<SEP>'' (py_strip line) in
      if length tokens = 4 then
        (let track_id = tokens ! 0; artist = tokens ! 2; title = tokens ! 3 in
         if tv track_id \<noteq> None then ((fst st)(track_id \<mapsto> (artist, title)), snd st) else st)
      else (fst st, snd st @ [msd_failure line]))"

definition load_msd_metadata ::
  "string list \<Rightarrow> (string \<rightharpoonup> string list) \<Rightarrow> (string \<rightharpoonup> string \<times> string) \<times> string list" where
  "load_msd_metadata lines tv = fold (msd_line tv) lines (Map.empty, [])"

subsection \<open>Python floats\<close>

text \<open>
  The confidences are Python floats, that is IEEE 754 doubles. A double is modelled as the
  rational number it denotes, and every arithmetic operation rounds its exact result to 53
  significant bits, ties to even. The exponent range is not bounded here: the values the
  parser computes lie between \<open>1/4\<close> and \<open>1\<close>.
\<close>

fun bitlen_nat :: "nat \<Rightarrow> nat" where
  \<comment> \<open>the number of binary digits of \<open>n\<close>\<close>
  "bitlen_nat n = (if n = 0 then 0 else Suc (bitlen_nat (n div 2)))"

declare bitlen_nat.simps [simp del]

definition binade :: "rat \<Rightarrow> int" where
  \<comment> \<open>for \<open>q > 0\<close>, the exponent \<open>e\<close> with \<open>2 ^ e \<le> q < 2 ^ (e + 1)\<close>\<close>
  "binade q = (if 1 \<le> q then int (bitlen_nat (nat \<lfloor>q\<rfloor>)) - 1
               else - int (bitlen_nat (nat (\<lceil>1 / q\<rceil> - 1))))"

definition pow2 :: "int \<Rightarrow> rat" where
  "pow2 k = (if 0 \<le> k then 2 ^ nat k else 1 / 2 ^ nat (- k))"

definition round_half_even :: "rat \<Rightarrow> int" where
  "round_half_even r =
     (let f = \<lfloor>r\<rfloor>; d = r - of_int f in
      if d < 1 / 2 then f else if 1 / 2 < d then f + 1 else if even f then f else f + 1)"

definition fl :: "rat \<Rightarrow> rat" where
  \<comment> \<open>the double nearest to \<open>q\<close>\<close>
  "fl q = (if q = 0 then 0
           else (let a = \<bar>q\<bar>; e = binade a;
                     m = round_half_even (a * pow2 (52 - e))
                 in sgn q * of_int m * pow2 (e - 52)))"

definition fdiv :: "rat \<Rightarrow> rat \<Rightarrow> rat" where
  "fdiv a b = fl (a / b)"

definition fsub :: "rat \<Rightarrow> rat \<Rightarrow> rat" where
  "fsub a b = fl (a - b)"

definition fadd :: "rat \<Rightarrow> rat \<Rightarrow> rat" where
  "fadd a b = fl (a + b)"

subsection \<open>The annotation container\<close>

text \<open>
  The \<open>jams\<close> library is not part of the repository. Its objects are modelled by what the
  parsers read and write: a JAMS file holds the file metadata and a list of annotations; an
  annotation holds a namespace, its metadata and a data frame of observations. The frame is
  a pandas frame: a list of rows, each under an index label. \<open>add_observation\<close> stores the
  new row under the label \<open>len(frame)\<close>. Times and durations are pandas timedeltas, counted
  in nanoseconds.
\<close>

datatype error = KeyError string | IndexError | LabelsNotInAxis "nat list" | AttributeError

record 'v observation =
  time :: int
  duration :: int
  val :: 'v
  confidence :: rat

type_synonym 'v frame = "(nat \<times> 'v observation) list"

record metadata =
  curator :: "string \<times> string"
  data_source :: string
  version :: rat
  corpus :: string
  annotator :: "string option"
  validation :: string

record 'v annotation =
  namespace :: string
  data :: "'v frame"
  annotation_metadata :: metadata

record 'v jams =
  artist :: string
  title :: string
  file_duration :: "rat option"
  identifiers :: "string option"
  annotations :: "'v annotation list"

definition empty_metadata :: metadata where
  \<comment> \<open>\<open>jams.AnnotationMetadata()\<close> with its defaults\<close>
  "empty_metadata = \<lparr>curator = ([], []), data_source = [], version = 0, corpus = [],
                      annotator = None, validation = []\<rparr>"

definition add_observation :: "'v observation \<Rightarrow> 'v frame \<Rightarrow> 'v frame" where
  \<comment> \<open>\<open>n = len(self); self.loc[n] = row\<close>: a row under an existing label is overwritten,
     a new label is appended\<close>
  "add_observation ob fr =
     (let n = length fr in
      if n \<in> fst ` set fr then map (\<lambda>(k, r). if k = n then (k, ob) else (k, r)) fr
      else fr @ [(n, ob)])"

definition os_path_join :: "string \<Rightarrow> string list \<Rightarrow> string" where
  \<comment> \<open>\<open>posixpath.join(a, *p)\<close>\<close>
  "os_path_join a p =
     fold (\<lambda>b path. if startswith b ''/'' then b
                     else if path = [] \<or> last path = CHR ''/'' then path @ b
                     else path @ ''/'' @ b) p a"

definition slice :: "nat \<Rightarrow> nat \<Rightarrow> string \<Rightarrow> string" where
  \<comment> \<open>\<open>s[i:j]\<close> for \<open>0 \<le> i \<le> j\<close>\<close>
  "slice i j s = take (j - i) (drop i s)"

subsection \<open>\<open>process\<close>\<close>

text \<open>
  The values that \<open>process\<close> computes once from the loader's result, before its loop.
\<close>

definition is_cd1 :: "load_state \<Rightarrow> bool" where
  "is_cd1 ld = (card (genres ld) = 13)"

definition is_cd2 :: "load_state \<Rightarrow> bool" where
  "is_cd2 ld = (\<not> is_cd1 ld \<and> has_minority_genres ld)"

definition tag_namespace :: "load_state \<Rightarrow> string" where
  "tag_namespace ld = (if is_cd1 ld then ''tag_msd_tagtraum_cd1'' else ''tag_msd_tagtraum_cd2'')"

definition majority_confidence :: "load_state \<Rightarrow> rat" where
  "majority_confidence ld = (if is_cd1 ld then fdiv 2 3 else fdiv 1 2)"

definition minority_confidence :: "load_state \<Rightarrow> rat" where
  "minority_confidence ld = fsub 1 (majority_confidence ld)"

definition tag_corpus :: "load_state \<Rightarrow> string" where
  "tag_corpus ld =
     (if is_cd1 ld then ''msd tagtraum cd1''
      else (if is_cd2 ld then ''msd tagtraum cd2'' else ''msd tagtraum cd2c''))"

definition tag_metadata :: "load_state \<Rightarrow> metadata" where
  "tag_metadata ld =
     \<lparr>curator = (''Hendrik Schreiber'', ''hs@tagtraum.com''),
      data_source = (if is_cd1 ld then ''Top-MAGD, beaTunes, Last.fm'' else ''beaTunes, Last.fm''),
      version = 1,
      corpus = tag_corpus ld,
      annotator = Some (if is_cd1 ld then ''All Music Guide, Last.fm users, beaTunes users''
                        else ''Last.fm users, beaTunes users''),
      validation = ''Multiple data sources. Majority voting.''\<rparr>"

text \<open>
  The body of the loop over \<open>tagtraum_values.iteritems()\<close>. The first statement looks the
  track up in \<open>unique_tracks_values\<close>; a missing key raises \<open>KeyError\<close>. \<open>genres[0]\<close> raises
  \<open>IndexError\<close> on an empty vote list. Writing the file (\<open>smkdirs\<close>, \<open>jam.save\<close>) is recorded
  as the pair of the path and the JAMS object.
\<close>

definition track_annotation :: "load_state \<Rightarrow> string list \<Rightarrow> error + string annotation" where
  "track_annotation ld gs =
     (if gs = [] then Inl IndexError
      else
        (let confidence = (if length gs = 1 then 1 else majority_confidence ld);
             d1 = add_observation \<lparr>time = 0, duration = 0, val = gs ! 0, confidence = confidence\<rparr> [];
             d2 = (if length gs = 2
                   then add_observation \<lparr>time = 0, duration = 0, val = gs ! 1,
                                          confidence = minority_confidence ld\<rparr> d1
                   else d1)
         in Inr \<lparr>namespace = tag_namespace ld, data = d2, annotation_metadata = tag_metadata ld\<rparr>))"

definition out_file :: "string \<Rightarrow> string \<Rightarrow> string" where
  "out_file out_dir track_id =
     os_path_join out_dir [slice 2 3 track_id, slice 3 4 track_id, slice 4 5 track_id,
                           track_id @ ''.jams'']"

definition process_track ::
  "load_state \<Rightarrow> (string \<rightharpoonup> string \<times> string) \<Rightarrow> string \<Rightarrow> string \<times> string list
     \<Rightarrow> error + string \<times> string jams" where
  "process_track ld utv out_dir item =
     (case utv (fst item) of
        None \<Rightarrow> Inl (KeyError (fst item))
      | Some (a, t) \<Rightarrow>
          (case track_annotation ld (snd item) of
             Inl e \<Rightarrow> Inl e
           | Inr ann \<Rightarrow>
               Inr (out_file out_dir (fst item),
                    \<lparr>artist = a, title = t, file_duration = Some 0,
                     identifiers = Some (fst item), annotations = [ann]\<rparr>)))"

text \<open>
  The loop has no exception handler: the first exception ends the run. The result of the
  run is the list of files written up to then, the exception that ended it (if any) and the
  warnings logged.
\<close>

record run =
  files :: "(string \<times> string jams) list"
  raised :: "error option"
  logged :: "string list"

fun process_tracks ::
  "load_state \<Rightarrow> (string \<rightharpoonup> string \<times> string) \<Rightarrow> string \<Rightarrow> (string \<times> string list) list
     \<Rightarrow> (string \<times> string jams) list \<Rightarrow> (string \<times> string jams) list \<times> error option" where
  "process_tracks ld utv out_dir [] written = (written, None)"
| "process_tracks ld utv out_dir (item # items) written =
     (case process_track ld utv out_dir item of
        Inl e \<Rightarrow> (written, Some e)
      | Inr f \<Rightarrow> process_tracks ld utv out_dir items (written @ [f]))"

definition iteritems :: "string list \<Rightarrow> (string \<rightharpoonup> 'v) \<Rightarrow> (string \<times> 'v) list" where
  \<comment> \<open>the items of a dictionary, in the order \<open>order\<close> of its keys: Python 2 fixes no order,
     so the order is an input of the model\<close>
  "iteritems order d = List.map_filter (\<lambda>k. map_option (Pair k) (d k)) order"

definition process :: "string list \<Rightarrow> string list \<Rightarrow> string \<Rightarrow> string list \<Rightarrow> run" where
  "process tagtraum_dataset msd_unique_tracks out_dir order =
     (let ld = load_tagtraum_dataset tagtraum_dataset;
          m = load_msd_metadata msd_unique_tracks (tagtraum_values ld);
          r = process_tracks ld (fst m) out_dir (iteritems order (tagtraum_values ld)) []
      in \<lparr>files = fst r, raised = snd r, logged = warnings ld @ snd m\<rparr>)"

definition votes_ex :: "string list" where
  \<comment> \<open>a vote file with two single-vote tracks\<close>
  "votes_ex = [''TRAAA'' @ TAB @ ''Rock'' @ NL, ''TRBBB'' @ TAB @ ''Pop'' @ NL]"

definition msd_ex :: "string list" where
  \<comment> \<open>an identity file that knows the second track only\<close>
  "msd_ex = [''TRBBB<SEP>SOX<SEP>Artist X<SEP>Song Y'' @ NL]"

section \<open>The Isophonics parser: \<open>isophonics_parser.py\<close>\<close>

subsection \<open>More string and path primitives\<close>

fun contains :: "string \<Rightarrow> string \<Rightarrow> bool" where
  \<comment> \<open>\<open>sub in s\<close>\<close>
  "contains sub [] = (sub = [])"
| "contains sub (c # cs) = (startswith (c # cs) sub \<or> contains sub cs)"

function replace_scan :: "string \<Rightarrow> string \<Rightarrow> string \<Rightarrow> string" where
  "replace_scan old new [] = []"
| "replace_scan old new (c # cs) =
     (if old \<noteq> [] \<and> startswith (c # cs) old
      then new @ replace_scan old new (drop (length old) (c # cs))
      else c # replace_scan old new cs)"
  by pat_completeness auto
termination
  by (relation "measure (\<lambda>(old, new, s). length s)") auto

definition py_replace :: "string \<Rightarrow> string \<Rightarrow> string \<Rightarrow> string" where
  \<comment> \<open>\<open>s.replace(old, new)\<close>: every occurrence, left to right; an empty \<open>old\<close> matches
     before every character and at the end\<close>
  "py_replace old new s =
     (if old = [] then new @ concat (map (\<lambda>c. c # new) s) else replace_scan old new s)"

definition basename :: "string \<Rightarrow> string" where
  \<comment> \<open>\<open>os.path.basename\<close>\<close>
  "basename p = rev (takeWhile (\<lambda>c. c \<noteq> CHR ''/'') (rev p))"

definition splitext_root :: "string \<Rightarrow> string" where
  \<comment> \<open>\<open>os.path.splitext(b)[0]\<close> for a name without \<open>/\<close>: cut at the last dot, unless only
     dots stand before it\<close>
  "splitext_root b =
     (if CHR ''.'' \<in> set b then
        (let root = rev (tl (dropWhile (\<lambda>c. c \<noteq> CHR ''.'') (rev b))) in
         if \<exists>c \<in> set root. c \<noteq> CHR ''.'' then root else b)
      else b)"

definition filebase :: "string \<Rightarrow> string" where
  \<comment> \<open>\<open>jams.util.filebase\<close>\<close>
  "filebase p = splitext_root (basename p)"

definition lower_char :: "char \<Rightarrow> char" where
  "lower_char c = (let n = (of_char c :: nat) in if 65 \<le> n \<and> n \<le> 90 then char_of (n + 32) else c)"

definition lower :: "string \<Rightarrow> string" where
  \<comment> \<open>\<open>s.lower()\<close> on a byte string\<close>
  "lower s = map lower_char s"

subsection \<open>Data frames of lab files\<close>

text \<open>
  The value column of a lab file holds strings; the beat pass turns it into floats, with
  \<open>NaN\<close> for a missing value.
\<close>

datatype val = Str string | Num rat | NaN

definition total_seconds :: "int \<Rightarrow> rat" where
  \<comment> \<open>\<open>Timedelta.total_seconds()\<close> of a timedelta of \<open>ns\<close> nanoseconds\<close>
  "total_seconds ns = of_int ns / 1000000000"

definition import_frame :: "'v observation list \<Rightarrow> 'v frame" where
  \<comment> \<open>the frame that \<open>jams.util.import_lab\<close> builds: one \<open>add_observation\<close> per row of the file\<close>
  "import_frame rows = fold add_observation rows []"

definition column :: "('v observation \<Rightarrow> 'a) \<Rightarrow> 'v frame \<Rightarrow> (nat \<times> 'a) list" where
  \<comment> \<open>\<open>enumerate(frame[col])\<close>: the entries of a column with their positions\<close>
  "column f fr = enumerate 0 (map (f \<circ> snd) fr)"

definition loc_set_value :: "nat \<Rightarrow> 'v \<Rightarrow> 'v frame \<Rightarrow> 'v frame" where
  \<comment> \<open>\<open>frame.loc[i, "value"] = v\<close>: the rows under the label \<open>i\<close> get the value. (Under a label
     that the index lacks pandas would add a row; the passes below take \<open>i\<close> from the positions
     of a frame that \<open>import_lab\<close> has just built, whose labels are its positions.)\<close>
  "loc_set_value i v fr = map (\<lambda>(k, r). if k = i then (k, r\<lparr>val := v\<rparr>) else (k, r)) fr"

definition drop_labels :: "nat list \<Rightarrow> 'v frame \<Rightarrow> error + 'v frame" where
  \<comment> \<open>\<open>frame.drop(idxs, inplace=True)\<close>: removes the rows under the given index labels, and
     raises when a label is not in the index\<close>
  "drop_labels idxs fr =
     (if \<forall>i \<in> set idxs. i \<in> fst ` set fr
      then Inr (filter (\<lambda>(k, r). k \<notin> set idxs) fr)
      else Inl (LabelsNotInAxis (filter (\<lambda>i. i \<notin> fst ` set fr) idxs)))"

subsection \<open>The passes\<close>

definition CHORDS_DICT :: "(string \<times> string) list" where
  "CHORDS_DICT =
     [(''E:4'', ''E:sus4''), (''Db:6'', ''Db:maj6''), (''F#min7'', ''F#:min7''),
      (''B:7sus'', ''B:maj7''), (''Db:6/2'', ''Db:maj6/2''), (''Ab:6'', ''Ab:maj6''),
      (''F:6'', ''F:maj6''), (''D:6'', ''D:maj6''), (''G:6'', ''G:maj6''), (''A:6'', ''A:maj6''),
      (''E:sus'', ''E''), (''E:7sus'', ''E:maj7'')]"

definition KEYS_DICT :: "(string \<times> string) list" where
  "KEYS_DICT = [(''C#:modal'', ''C#'')]"

definition dict_get :: "(string \<times> string) list \<Rightarrow> val \<Rightarrow> val" where
  \<comment> \<open>\<open>D.get(label, label)\<close>\<close>
  "dict_get d label =
     (case label of
        Str s \<Rightarrow> (case map_of d s of Some s' \<Rightarrow> Str s' | None \<Rightarrow> label)
      | _ \<Rightarrow> label)"

definition fix_labels :: "(string \<times> string) list \<Rightarrow> val frame \<Rightarrow> val frame" where
  \<comment> \<open>the loop shared by \<open>fix_chord_labels\<close> and \<open>fix_key_labels\<close>\<close>
  "fix_labels d fr = fold (\<lambda>(i, label). loc_set_value i (dict_get d label)) (column val fr) fr"

definition fix_chord_labels :: "val frame \<Rightarrow> val frame" where
  "fix_chord_labels fr = fix_labels CHORDS_DICT fr"

definition fix_key_labels :: "val frame \<Rightarrow> val frame" where
  "fix_key_labels fr = fix_labels KEYS_DICT fr"

definition to_float :: "(string \<Rightarrow> rat option) \<Rightarrow> val \<Rightarrow> val" where
  \<comment> \<open>\<open>float(value)\<close>, with \<open>None\<close> (a missing value, \<open>NaN\<close> after \<open>astype("float")\<close>) on
     \<open>ValueError\<close>; \<open>parse\<close> is Python's reading of a string as a float\<close>
  "to_float parse v =
     (case v of
        Str s \<Rightarrow> (case parse s of Some x \<Rightarrow> Num x | None \<Rightarrow> NaN)
      | Num x \<Rightarrow> Num x
      | NaN \<Rightarrow> NaN)"

definition fix_beats_values :: "(string \<Rightarrow> rat option) \<Rightarrow> val frame \<Rightarrow> val frame" where
  "fix_beats_values parse fr =
     fold (\<lambda>(i, v). loc_set_value i (to_float parse v)) (column val fr) fr"

definition fix_ranges :: "'v frame \<Rightarrow> error + 'v frame" where
  "fix_ranges fr =
     drop_labels (map fst (filter (\<lambda>(i, dur). total_seconds dur \<le> 0) (column duration fr))) fr"

fun silence_idxs :: "(nat \<times> val) list \<Rightarrow> error + nat list" where
  \<comment> \<open>the loop of \<open>fix_silence\<close>; \<open>label.lower()\<close> needs a string\<close>
  "silence_idxs [] = Inr []"
| "silence_idxs ((i, Str s) # rest) =
     (case silence_idxs rest of
        Inl e \<Rightarrow> Inl e
      | Inr idxs \<Rightarrow> Inr (if lower s = ''silence'' then i # idxs else idxs))"
| "silence_idxs ((i, _) # rest) = Inl AttributeError"

definition fix_silence :: "val frame \<Rightarrow> error + val frame" where
  "fix_silence fr =
     (case silence_idxs (column val fr) of
        Inl e \<Rightarrow> Inl e
      | Inr idxs \<Rightarrow> drop_labels idxs fr)"

definition get_duration_from_annot :: "'v frame \<Rightarrow> error + rat" where
  \<comment> \<open>\<open>annot.data.iloc[-1]\<close> raises \<open>IndexError\<close> on a frame without rows\<close>
  "get_duration_from_annot fr =
     (if fr = [] then Inl IndexError
      else Inr (total_seconds (time (snd (last fr)) + duration (snd (last fr)))))"

text \<open>
  The sequences of passes that \<open>process\<close> runs on the frame of a chord, key and segment
  file.
\<close>

definition chord_passes :: "val frame \<Rightarrow> error + val frame" where
  "chord_passes fr = fix_ranges (fix_chord_labels fr)"

definition key_passes :: "val frame \<Rightarrow> error + val frame" where
  "key_passes fr =
     (case fix_ranges (fix_key_labels fr) of
        Inl e \<Rightarrow> Inl e
      | Inr fr' \<Rightarrow> fix_silence fr')"

definition segment_passes :: "val frame \<Rightarrow> error + val frame" where
  "segment_passes fr = fix_ranges fr"

subsection \<open>\<open>process\<close> of the Isophonics parser\<close>

text \<open>
  The inputs of the run are the two directory names, the list \<open>all_labs\<close> of the files that
  \<open>jams.util.find_with_extension\<close> has found, the rows that \<open>jams.util.import_lab\<close> reads
  from each file (\<open>labs\<close>) and Python's reading of a string as a float (\<open>parse\<close>). The state
  of the loop holds the dictionaries \<open>all_jams\<close> and \<open>output_paths\<close> and the messages
  logged. After the loop every \<open>all_jams[title]\<close> is saved to \<open>output_paths[title]\<close>; an
  exception in the loop ends the run before anything is saved.
\<close>

record iso_state =
  all_jams :: "string \<rightharpoonup> val jams"
  output_paths :: "string \<rightharpoonup> string"
  iso_log :: "string list"

definition iso_init :: iso_state where
  "iso_init = \<lparr>all_jams = Map.empty, output_paths = Map.empty, iso_log = []\<rparr>"

definition iso_metadata :: metadata where
  "iso_metadata = \<lparr>curator = (''Matthias Mauch'', ''m.mauch@qmul.ac.uk''), data_source = [],
                    version = 1, corpus = ''Isophonics'', annotator = None, validation = []\<rparr>"

definition path_parts :: "string \<Rightarrow> string \<Rightarrow> string list" where
  \<comment> \<open>\<open>lab_file.replace(in_dir, '').strip('/').split('/')\<close>\<close>
  "path_parts in_dir lab_file =
     py_split ''/'' (strip_chars (\<lambda>c. c = CHR ''/'') (py_replace in_dir [] lab_file))"

definition new_track :: "string \<Rightarrow> string \<Rightarrow> string \<Rightarrow> iso_state \<Rightarrow> error + iso_state" where
  \<comment> \<open>the body of \<open>if not title in all_jams\<close>; \<open>parts[1]\<close> raises \<open>IndexError\<close> when the
     path has fewer than two parts\<close>
  "new_track in_dir out_dir lab_file st =
     (let title = filebase lab_file;
          parts = path_parts in_dir lab_file
      in if length parts < 2 then Inl IndexError
         else
           (let path = py_replace ''.lab'' ''.jams'' (os_path_join out_dir (tl parts)) in
            Inr (st\<lparr>all_jams := (all_jams st)(title \<mapsto>
                        \<lparr>artist = parts ! 1, title = title, file_duration = None,
                         identifiers = None, annotations = []\<rparr>),
                    output_paths := (output_paths st)(title \<mapsto> path),
                    iso_log := iso_log st @ [title @ '' -> '' @ path]\<rparr>)))"

definition import_lab :: "string \<Rightarrow> val observation list \<Rightarrow> val jams \<Rightarrow> val jams" where
  \<comment> \<open>\<open>jams.util.import_lab(namespace, lab_file, jam=jam)\<close> appends the new annotation to the
     JAMS object\<close>
  "import_lab ns rows jam =
     jam\<lparr>annotations := annotations jam @
           [\<lparr>namespace = ns, data = import_frame rows, annotation_metadata = empty_metadata\<rparr>]\<rparr>"

definition set_last_data :: "val frame \<Rightarrow> val jams \<Rightarrow> val jams" where
  \<comment> \<open>the passes change the frame of \<open>jam.annotations[-1]\<close> in place\<close>
  "set_last_data fr jam =
     jam\<lparr>annotations := butlast (annotations jam) @ [(last (annotations jam))\<lparr>data := fr\<rparr>]\<rparr>"

definition annotate ::
  "(string \<Rightarrow> rat option) \<Rightarrow> val observation list \<Rightarrow> string \<Rightarrow> val jams \<Rightarrow> error + val jams" where
  \<comment> \<open>the \<open>if\<close>/\<open>elif\<close> chain on the category keyword found in the path\<close>
  "annotate parse rows lab_file jam =
     (if contains ''beat'' lab_file then
        Inr (set_last_data (fix_beats_values parse (import_frame rows)) (import_lab ''beat'' rows jam))
      else if contains ''chordlab'' lab_file then
        (case chord_passes (import_frame rows) of
           Inl e \<Rightarrow> Inl e
         | Inr fr \<Rightarrow>
             (case get_duration_from_annot fr of
                Inl e \<Rightarrow> Inl e
              | Inr dur \<Rightarrow>
                  Inr ((set_last_data fr (import_lab ''chord_harte'' rows jam))
                         \<lparr>file_duration := Some dur\<rparr>)))
      else if contains ''keylab'' lab_file then
        (case key_passes (import_frame rows) of
           Inl e \<Rightarrow> Inl e
         | Inr fr \<Rightarrow> Inr (set_last_data fr (import_lab ''key_mode'' rows jam)))
      else if contains ''seglab'' lab_file then
        (case segment_passes (import_frame rows) of
           Inl e \<Rightarrow> Inl e
         | Inr fr \<Rightarrow>
             (case get_duration_from_annot fr of
                Inl e \<Rightarrow> Inl e
              | Inr dur \<Rightarrow>
                  Inr ((set_last_data fr (import_lab ''segment_isophonics'' rows jam))
                         \<lparr>file_duration := Some dur\<rparr>)))
      else Inr jam)"

definition set_last_metadata :: "val jams \<Rightarrow> error + val jams" where
  \<comment> \<open>\<open>jam.annotations[-1].annotation_metadata = ann_meta\<close>; \<open>annotations[-1]\<close> raises
     \<open>IndexError\<close> on an empty list\<close>
  "set_last_metadata jam =
     (if annotations jam = [] then Inl IndexError
      else Inr (jam\<lparr>annotations := butlast (annotations jam) @
                      [(last (annotations jam))\<lparr>annotation_metadata := iso_metadata\<rparr>]\<rparr>))"

definition process_file ::
  "(string \<Rightarrow> rat option) \<Rightarrow> (string \<Rightarrow> val observation list) \<Rightarrow> string \<Rightarrow> string \<Rightarrow> string
     \<Rightarrow> iso_state \<Rightarrow> error + iso_state" where
  \<comment> \<open>the body of \<open>for lab_file in all_labs\<close>\<close>
  "process_file parse labs in_dir out_dir lab_file st =
     (let title = filebase lab_file in
      case (if all_jams st title = None then new_track in_dir out_dir lab_file st else Inr st) of
        Inl e \<Rightarrow> Inl e
      | Inr st1 \<Rightarrow>
          (case all_jams st1 title of
             None \<Rightarrow> Inl (KeyError title)
           | Some jam \<Rightarrow>
               (case annotate parse (labs lab_file) lab_file jam of
                  Inl e \<Rightarrow> Inl e
                | Inr jam2 \<Rightarrow>
                    (case set_last_metadata jam2 of
                       Inl e \<Rightarrow> Inl e
                     | Inr jam3 \<Rightarrow> Inr (st1\<lparr>all_jams := (all_jams st1)(title \<mapsto> jam3)\<rparr>)))))"

fun process_files ::
  "(string \<Rightarrow> rat option) \<Rightarrow> (string \<Rightarrow> val observation list) \<Rightarrow> string \<Rightarrow> string \<Rightarrow> string list
     \<Rightarrow> iso_state \<Rightarrow> error + iso_state" where
  "process_files parse labs in_dir out_dir [] st = Inr st"
| "process_files parse labs in_dir out_dir (f # fs) st =
     (case process_file parse labs in_dir out_dir f st of
        Inl e \<Rightarrow> Inl e
      | Inr st' \<Rightarrow> process_files parse labs in_dir out_dir fs st')"

definition iso_process ::
  "(string \<Rightarrow> rat option) \<Rightarrow> (string \<Rightarrow> val observation list) \<Rightarrow> string \<Rightarrow> string \<Rightarrow> string list
     \<Rightarrow> error + iso_state" where
  "iso_process parse labs in_dir out_dir all_labs =
     process_files parse labs in_dir out_dir all_labs iso_init"

definition row :: "int \<Rightarrow> int \<Rightarrow> string \<Rightarrow> val observation" where
  \<comment> \<open>a row of a lab file, as \<open>import_lab\<close> stores it: confidence \<open>1.0\<close>\<close>
  "row t d s = \<lparr>time = t, duration = d, val = Str s, confidence = 1\<rparr>"

definition jam_a :: "val jams" where
  \<comment> \<open>a track with one chord annotation\<close>
  "jam_a = \<lparr>artist = ''Artist'', title = ''a'', file_duration = Some 1, identifiers = None,
            annotations = [\<lparr>namespace = ''chord_harte'', data = [(0, row 0 1000000000 ''A'')],
                            annotation_metadata = iso_metadata\<rparr>]\<rparr>"

definition state_a :: iso_state where
  \<comment> \<open>the state of the loop after the chord file of that track\<close>
  "state_a = \<lparr>all_jams = [''a'' \<mapsto> jam_a], output_paths = [''a'' \<mapsto> ''out/Artist/a.jams''],
              iso_log = [''a -> out/Artist/a.jams'']\<rparr>"

section \<open>Properties of the vote loader\<close>

lemma load_from_Nil: "load_from st [] = st"
  by (simp add: load_from_def)

lemma load_from_Cons: "load_from st (l # ls) = load_from (load_line l st) ls"
  by (simp add: load_from_def)

lemma load_from_append: "load_from st (xs @ ys) = load_from (load_from st xs) ys"
  by (simp add: load_from_def)

lemma load_line_core:
  assumes "tagtraum_values st = tagtraum_values st'" "genres st = genres st'"
    "has_minority_genres st = has_minority_genres st'"
  shows "tagtraum_values (load_line l st) = tagtraum_values (load_line l st')
       \<and> genres (load_line l st) = genres (load_line l st')
       \<and> has_minority_genres (load_line l st) = has_minority_genres (load_line l st')"
  using assms by (simp add: load_line_def Let_def)

lemma load_from_core:
  assumes "tagtraum_values st = tagtraum_values st'" "genres st = genres st'"
    "has_minority_genres st = has_minority_genres st'"
  shows "tagtraum_values (load_from st ls) = tagtraum_values (load_from st' ls)
       \<and> genres (load_from st ls) = genres (load_from st' ls)
       \<and> has_minority_genres (load_from st ls) = has_minority_genres (load_from st' ls)"
  using assms
proof (induction ls arbitrary: st st')
  case Nil
  then show ?case by (simp add: load_from_Nil)
next
  case (Cons l ls)
  show ?case
    unfolding load_from_Cons
    by (rule Cons.IH) (use load_line_core[OF Cons.prems] in simp_all)
qed

lemma load_line_warnings_mono: "set (warnings st) \<subseteq> set (warnings (load_line l st))"
  by (auto simp add: load_line_def Let_def)

lemma load_from_warnings_mono: "set (warnings st) \<subseteq> set (warnings (load_from st ls))"
proof (induction ls arbitrary: st)
  case Nil
  then show ?case by (simp add: load_from_Nil)
next
  case (Cons l ls)
  show ?case unfolding load_from_Cons
    using load_line_warnings_mono[of st l] Cons.IH[of "load_line l st"] by blast
qed

lemma split_ex1: "py_split TAB (py_strip (''TRABC'' @ TAB @ ''Rock'' @ NL)) = [''TRABC'', ''Rock'']"
  by (simp add: TAB_def NL_def py_strip_def strip_chars_def is_space_def startswith_def)

lemma split_ex2: "py_split TAB (py_strip (''TRABC'' @ TAB @ ''Rock'' @ TAB @ ''Pop'' @ NL)) = [''TRABC'', ''Rock'', ''Pop'']"
  by (simp add: TAB_def NL_def py_strip_def strip_chars_def is_space_def startswith_def)

lemma split_ex3: "py_split TAB (py_strip (''TRABC'' @ NL)) = [''TRABC'']"
  by (simp add: TAB_def NL_def py_strip_def strip_chars_def is_space_def startswith_def)

text \<open>
  Claim C7, as the code has it. The fields of a line are those left after \<open>strip()\<close> has
  removed its leading and trailing whitespace, tabs included. For a line that does not start
  with the comment marker, with \<open>tokens = line.strip().split('\\t')\<close>: two fields store the single-vote record
  \<open>[genre]\<close> under the track id and leave the flag and the log alone; three fields store the
  two-vote record \<open>[majority_genre, minority_genre]\<close> and set \<open>has_minority_genres\<close>;
  any other field count only appends the parse-failure warning, and the load goes on: the
  result for the whole file has the same votes, genres and flag as for the file without
  that line, and its log holds the warning.
\<close>

theorem load_line_field_count:
  assumes "\<not> startswith line ''#''" and "tokens = py_split TAB (py_strip line)"
  shows "(length tokens = 2 \<longrightarrow>
            tagtraum_values (load_line line st) = (tagtraum_values st)(tokens ! 0 \<mapsto> [tokens ! 1])
          \<and> has_minority_genres (load_line line st) = has_minority_genres st
          \<and> warnings (load_line line st) = warnings st)
       \<and> (length tokens = 3 \<longrightarrow>
            tagtraum_values (load_line line st) =
              (tagtraum_values st)(tokens ! 0 \<mapsto> [tokens ! 1, py_strip (tokens ! 2)])
          \<and> has_minority_genres (load_line line st)
          \<and> warnings (load_line line st) = warnings st)
       \<and> (length tokens \<noteq> 2 \<and> length tokens \<noteq> 3 \<longrightarrow>
            load_line line st = st\<lparr>warnings := warnings st @ [parse_failure line]\<rparr>
          \<and> tagtraum_values (load_tagtraum_dataset (pre @ line # post)) =
              tagtraum_values (load_tagtraum_dataset (pre @ post))
          \<and> genres (load_tagtraum_dataset (pre @ line # post)) =
              genres (load_tagtraum_dataset (pre @ post))
          \<and> has_minority_genres (load_tagtraum_dataset (pre @ line # post)) =
              has_minority_genres (load_tagtraum_dataset (pre @ post))
          \<and> parse_failure line \<in> set (warnings (load_tagtraum_dataset (pre @ line # post))))"
proof (intro conjI impI)
  assume bad: "length tokens \<noteq> 2 \<and> length tokens \<noteq> 3"
  show step: "load_line line st = st\<lparr>warnings := warnings st @ [parse_failure line]\<rparr>" for st
    using assms bad by (simp add: load_line_def Let_def parse_failure_def)
  let ?s = "load_from load_init pre"
  have eq: "load_tagtraum_dataset (pre @ line # post) = load_from (load_line line ?s) post"
    "load_tagtraum_dataset (pre @ post) = load_from ?s post"
    by (simp_all add: load_tagtraum_dataset_def load_from_append load_from_Cons)
  have core: "tagtraum_values (load_line line ?s) = tagtraum_values ?s"
    "genres (load_line line ?s) = genres ?s"
    "has_minority_genres (load_line line ?s) = has_minority_genres ?s"
    by (simp_all add: step)
  from load_from_core[OF core, of post]
  show "tagtraum_values (load_tagtraum_dataset (pre @ line # post)) =
              tagtraum_values (load_tagtraum_dataset (pre @ post))"
    "genres (load_tagtraum_dataset (pre @ line # post)) =
              genres (load_tagtraum_dataset (pre @ post))"
    "has_minority_genres (load_tagtraum_dataset (pre @ line # post)) =
              has_minority_genres (load_tagtraum_dataset (pre @ post))"
    by (simp_all add: eq)
  have "parse_failure line \<in> set (warnings (load_line line ?s))"
    by (simp add: step)
  then show "parse_failure line \<in> set (warnings (load_tagtraum_dataset (pre @ line # post)))"
    using load_from_warnings_mono[of "load_line line ?s" post] by (auto simp add: eq)
qed (use assms in \<open>simp_all add: load_line_def Let_def\<close>)


theorem load_line_field_count_witness:
  "\<not> startswith (''TRABC'' @ TAB @ ''Rock'' @ NL) ''#''
   \<and> length (py_split TAB (py_strip (''TRABC'' @ TAB @ ''Rock'' @ NL))) = 2
   \<and> tagtraum_values (load_line (''TRABC'' @ TAB @ ''Rock'' @ NL) load_init) ''TRABC'' = Some [''Rock'']
   \<and> length (py_split TAB (py_strip (''TRABC'' @ TAB @ ''Rock'' @ TAB @ ''Pop'' @ NL))) = 3
   \<and> tagtraum_values (load_line (''TRABC'' @ TAB @ ''Rock'' @ TAB @ ''Pop'' @ NL) load_init) ''TRABC''
       = Some [''Rock'', ''Pop'']
   \<and> has_minority_genres (load_line (''TRABC'' @ TAB @ ''Rock'' @ TAB @ ''Pop'' @ NL) load_init)
   \<and> length (py_split TAB (py_strip (''TRABC'' @ NL))) = 1
   \<and> warnings (load_line (''TRABC'' @ NL) load_init) = [parse_failure (''TRABC'' @ NL)]"
proof -
  have c: "\<not> startswith (''TRABC'' @ t) ''#''" for t
    by (simp add: startswith_def)
  have s: "py_strip ''Pop'' = ''Pop''"
    by (simp add: py_strip_def strip_chars_def is_space_def)
  have w0: "warnings load_init = []"
    by (simp add: load_init_def)
  have l1: "length (py_split TAB (py_strip (''TRABC'' @ TAB @ ''Rock'' @ NL))) = 2"
    and l2: "length (py_split TAB (py_strip (''TRABC'' @ TAB @ ''Rock'' @ TAB @ ''Pop'' @ NL))) = 3"
    and l3: "length (py_split TAB (py_strip (''TRABC'' @ NL))) = 1"
    by (simp_all only: split_ex1 split_ex2 split_ex3) simp_all
  show ?thesis
    using load_line_field_count[OF c split_ex1[symmetric], of load_init "[]" "[]"]
      load_line_field_count[OF c split_ex2[symmetric], of load_init "[]" "[]"]
      load_line_field_count[OF c split_ex3[symmetric], of load_init "[]" "[]"]
      l1 l2 l3 c[of "TAB @ ''Rock'' @ NL"]
    by (simp add: s w0)
qed

lemma raw_fields:
  "length (py_split TAB (''TRABC'' @ TAB @ NL)) = 2"
  "length (py_split TAB (''T'' @ TAB @ ''Rock'' @ TAB @ NL)) = 3"
  "length (py_split TAB (TAB @ ''T3'' @ TAB @ ''Jazz'' @ TAB @ NL)) = 4"
  by (simp_all add: TAB_def NL_def startswith_def)

lemma stripped_fields:
  "py_split TAB (py_strip (''TRABC'' @ TAB @ NL)) = [''TRABC'']"
  "py_split TAB (py_strip (''T'' @ TAB @ ''Rock'' @ TAB @ NL)) = [''T'', ''Rock'']"
  "py_split TAB (py_strip (TAB @ ''T3'' @ TAB @ ''Jazz'' @ TAB @ NL)) = [''T3'', ''Jazz'']"
  by (simp_all add: TAB_def NL_def py_strip_def strip_chars_def is_space_def startswith_def)

lemma not_comments:
  "\<not> startswith (''TRABC'' @ TAB @ NL) ''#''"
  "\<not> startswith (''T'' @ TAB @ ''Rock'' @ TAB @ NL) ''#''"
  "\<not> startswith (TAB @ ''T3'' @ TAB @ ''Jazz'' @ TAB @ NL) ''#''"
  by (simp_all add: TAB_def startswith_def)

lemma load_line_one_field:
  assumes "\<not> startswith line ''#''" and "py_split TAB (py_strip line) = [a]"
  shows "load_line line st = st\<lparr>warnings := warnings st @ [parse_failure line]\<rparr>"
  using assms by (simp add: load_line_def)

lemma load_line_two_fields:
  assumes "\<not> startswith line ''#''" and "py_split TAB (py_strip line) = [a, b]"
  shows "load_line line st =
           st\<lparr>tagtraum_values := (tagtraum_values st)(a \<mapsto> [b]), genres := insert b (genres st)\<rparr>"
  using assms by (simp add: load_line_def)

text \<open>
  The field count of Claim C7 is not that of the line as it stands in the file: \<open>strip()\<close>
  removes leading and trailing tabs together with the line end before the split. A line with
  a track id and an empty genre has two fields and is a parse failure; a line with an empty
  third field has three fields and is stored as a single vote, without the flag; a line with
  an empty first and an empty fourth field has four fields and is stored as a single vote,
  without a warning.
\<close>

theorem raw_field_count_counterexample:
  "\<not> startswith (''TRABC'' @ TAB @ NL) ''#''
   \<and> length (py_split TAB (''TRABC'' @ TAB @ NL)) = 2
   \<and> tagtraum_values (load_line (''TRABC'' @ TAB @ NL) load_init) ''TRABC'' = None
   \<and> warnings (load_line (''TRABC'' @ TAB @ NL) load_init) = [parse_failure (''TRABC'' @ TAB @ NL)]
   \<and> \<not> startswith (''T'' @ TAB @ ''Rock'' @ TAB @ NL) ''#''
   \<and> length (py_split TAB (''T'' @ TAB @ ''Rock'' @ TAB @ NL)) = 3
   \<and> tagtraum_values (load_line (''T'' @ TAB @ ''Rock'' @ TAB @ NL) load_init) ''T'' = Some [''Rock'']
   \<and> \<not> has_minority_genres (load_line (''T'' @ TAB @ ''Rock'' @ TAB @ NL) load_init)
   \<and> \<not> startswith (TAB @ ''T3'' @ TAB @ ''Jazz'' @ TAB @ NL) ''#''
   \<and> length (py_split TAB (TAB @ ''T3'' @ TAB @ ''Jazz'' @ TAB @ NL)) = 4
   \<and> tagtraum_values (load_line (TAB @ ''T3'' @ TAB @ ''Jazz'' @ TAB @ NL) load_init) ''T3''
       = Some [''Jazz'']
   \<and> warnings (load_line (TAB @ ''T3'' @ TAB @ ''Jazz'' @ TAB @ NL) load_init) = []"
proof -
  have one: "tagtraum_values (load_line (''TRABC'' @ TAB @ NL) load_init) ''TRABC'' = None"
    "warnings (load_line (''TRABC'' @ TAB @ NL) load_init) = [parse_failure (''TRABC'' @ TAB @ NL)]"
    unfolding load_line_one_field[OF not_comments(1) stripped_fields(1)]
    by (simp_all add: load_init_def)
  have two: "tagtraum_values (load_line (''T'' @ TAB @ ''Rock'' @ TAB @ NL) load_init) ''T'' = Some [''Rock'']"
    "\<not> has_minority_genres (load_line (''T'' @ TAB @ ''Rock'' @ TAB @ NL) load_init)"
    unfolding load_line_two_fields[OF not_comments(2) stripped_fields(2)]
    by (simp_all add: load_init_def)
  have three: "tagtraum_values (load_line (TAB @ ''T3'' @ TAB @ ''Jazz'' @ TAB @ NL) load_init) ''T3''
       = Some [''Jazz'']"
    "warnings (load_line (TAB @ ''T3'' @ TAB @ ''Jazz'' @ TAB @ NL) load_init) = []"
    unfolding load_line_two_fields[OF not_comments(3) stripped_fields(3)]
    by (simp_all add: load_init_def)
  from not_comments raw_fields one two three show ?thesis by blast
qed


lemma load_line_parsed:
  assumes "parsed_line l = Some (t, v)"
  shows "tagtraum_values (load_line l st) = (tagtraum_values st)(t \<mapsto> v)"
    and "genres (load_line l st) = genres st \<union> set v"
    and "has_minority_genres (load_line l st) = (has_minority_genres st \<or> length v = 2)"
  using assms by (auto simp add: parsed_line_def load_line_def Let_def split: if_splits)

lemma load_line_unparsed:
  assumes "parsed_line l = None"
  shows "tagtraum_values (load_line l st) = tagtraum_values st"
    and "genres (load_line l st) = genres st"
    and "has_minority_genres (load_line l st) = has_minority_genres st"
  using assms by (auto simp add: parsed_line_def load_line_def Let_def split: if_splits)

lemma load_line_other_track:
  assumes "\<forall>v'. parsed_line l \<noteq> Some (t, v')"
  shows "tagtraum_values (load_line l st) t = tagtraum_values st t"
proof (cases "parsed_line l")
  case None
  then show ?thesis by (simp add: load_line_unparsed)
next
  case (Some r)
  obtain t' v' where r: "r = (t', v')" by (cases r)
  with Some assms have "t' \<noteq> t" by auto
  with Some r show ?thesis by (simp add: load_line_parsed)
qed

lemma load_from_other_tracks:
  assumes "\<forall>l \<in> set post. \<forall>v'. parsed_line l \<noteq> Some (t, v')"
  shows "tagtraum_values (load_from st post) t = tagtraum_values st t"
  using assms
proof (induction post arbitrary: st)
  case Nil
  then show ?case by (simp add: load_from_Nil)
next
  case (Cons l ls)
  then show ?case by (simp add: load_from_Cons load_line_other_track)
qed

lemma load_line_accumulates:
  "genres st \<subseteq> genres (load_line l st)"
  "has_minority_genres st \<Longrightarrow> has_minority_genres (load_line l st)"
  by (cases "parsed_line l"; auto simp add: load_line_parsed load_line_unparsed)+

lemma load_from_accumulates:
  "genres st \<subseteq> genres (load_from st ls) \<and>
   (has_minority_genres st \<longrightarrow> has_minority_genres (load_from st ls))"
proof (induction ls arbitrary: st)
  case Nil
  then show ?case by (simp add: load_from_Nil)
next
  case (Cons l ls)
  show ?case
    unfolding load_from_Cons
    using Cons.IH[of "load_line l st"] load_line_accumulates[of st l] by blast
qed

text \<open>
  Claim C10. When several data lines carry the same track id, the vote list stored for it is
  the one of the last such line: a line that parses to \<open>(t, v)\<close> and is followed by no other
  line for \<open>t\<close> leaves \<open>tagtraum_values[t] = v\<close>. Every parsed line, overwritten or not,
  still contributes its genres to \<open>genres\<close> and, when it has two votes, sets
  \<open>has_minority_genres\<close>; both feed the variant inference.
\<close>

theorem duplicate_track_id_last_wins:
  "(parsed_line line = Some (t, v) \<and> (\<forall>l \<in> set post. \<forall>v'. parsed_line l \<noteq> Some (t, v'))
      \<longrightarrow> tagtraum_values (load_tagtraum_dataset (pre @ line # post)) t = Some v)
   \<and> (parsed_line line = Some (t, v)
      \<longrightarrow> set v \<subseteq> genres (load_tagtraum_dataset (pre @ line # post))
        \<and> (length v = 2 \<longrightarrow> has_minority_genres (load_tagtraum_dataset (pre @ line # post))))"
proof -
  let ?s = "load_from load_init pre"
  have eq: "load_tagtraum_dataset (pre @ line # post) = load_from (load_line line ?s) post"
    by (simp add: load_tagtraum_dataset_def load_from_append load_from_Cons)
  have a: "tagtraum_values (load_tagtraum_dataset (pre @ line # post)) t = Some v"
    if "parsed_line line = Some (t, v)" "\<forall>l \<in> set post. \<forall>v'. parsed_line l \<noteq> Some (t, v')"
    using that by (simp add: eq load_from_other_tracks load_line_parsed)
  have b: "set v \<subseteq> genres (load_tagtraum_dataset (pre @ line # post))
        \<and> (length v = 2 \<longrightarrow> has_minority_genres (load_tagtraum_dataset (pre @ line # post)))"
    if p: "parsed_line line = Some (t, v)"
  proof -
    have "set v \<subseteq> genres (load_line line ?s)"
      "length v = 2 \<longrightarrow> has_minority_genres (load_line line ?s)"
      by (simp_all add: load_line_parsed[OF p])
    then show ?thesis
      unfolding eq using load_from_accumulates[of "load_line line ?s" post] by blast
  qed
  from a b show ?thesis by blast
qed


lemma parsed_ex1:
  "parsed_line (''TRABC'' @ TAB @ ''Rock'' @ NL) = Some (''TRABC'', [''Rock''])"
  by (simp only: parsed_line_def split_ex1 Let_def) (simp add: startswith_def)

lemma parsed_ex2:
  "parsed_line (''TRABC'' @ TAB @ ''Rock'' @ TAB @ ''Pop'' @ NL) = Some (''TRABC'', [''Rock'', ''Pop''])"
  by (simp only: parsed_line_def split_ex2 Let_def)
     (simp add: startswith_def py_strip_def strip_chars_def is_space_def)

lemma parsed_ex3: "parsed_line (''TRABC'' @ NL) = None"
  by (simp only: parsed_line_def split_ex3 Let_def) (simp add: startswith_def)

theorem duplicate_track_id_last_wins_witness:
  "parsed_line (''TRABC'' @ TAB @ ''Rock'' @ NL) = Some (''TRABC'', [''Rock''])
   \<and> parsed_line (''TRABC'' @ TAB @ ''Rock'' @ TAB @ ''Pop'' @ NL) = Some (''TRABC'', [''Rock'', ''Pop''])
   \<and> tagtraum_values (load_tagtraum_dataset
        [''TRABC'' @ TAB @ ''Rock'' @ TAB @ ''Pop'' @ NL, ''TRABC'' @ TAB @ ''Rock'' @ NL]) ''TRABC''
       = Some [''Rock'']
   \<and> ''Pop'' \<in> genres (load_tagtraum_dataset
        [''TRABC'' @ TAB @ ''Rock'' @ TAB @ ''Pop'' @ NL, ''TRABC'' @ TAB @ ''Rock'' @ NL])
   \<and> has_minority_genres (load_tagtraum_dataset
        [''TRABC'' @ TAB @ ''Rock'' @ TAB @ ''Pop'' @ NL, ''TRABC'' @ TAB @ ''Rock'' @ NL])"
  using parsed_ex1 parsed_ex2
    duplicate_track_id_last_wins[of "''TRABC'' @ TAB @ ''Rock'' @ NL" "''TRABC''" "[''Rock'']" "[]"
      "[''TRABC'' @ TAB @ ''Rock'' @ TAB @ ''Pop'' @ NL]"]
    duplicate_track_id_last_wins[of "''TRABC'' @ TAB @ ''Rock'' @ TAB @ ''Pop'' @ NL" "''TRABC''"
      "[''Rock'', ''Pop'']" "[''TRABC'' @ TAB @ ''Rock'' @ NL]" "[]"]
  by simp



lemma load_line_genres:
  "genres (load_line l st) = genres st \<union> (case parsed_line l of None \<Rightarrow> {} | Some (t, v) \<Rightarrow> set v)"
proof (cases "parsed_line l")
  case None
  then show ?thesis by (simp add: load_line_unparsed)
next
  case (Some r)
  then show ?thesis by (cases r) (simp add: load_line_parsed)
qed

lemma load_from_genres: "genres (load_from st ls) = genres st \<union> observed_genres ls"
proof (induction ls arbitrary: st)
  case Nil
  then show ?case by (simp add: load_from_Nil observed_genres_def)
next
  case (Cons l ls)
  have "observed_genres (l # ls) =
      (case parsed_line l of None \<Rightarrow> {} | Some (t, v) \<Rightarrow> set v) \<union> observed_genres ls"
    by (simp add: observed_genres_def)
  then show ?case
    by (simp add: load_from_Cons Cons.IH load_line_genres Un_assoc)
qed



lemma c13: "card (observed_genres thirteen) = 13"
  by (simp add: thirteen_def observed_genres_def parsed_line_def startswith_def py_strip_def strip_chars_def is_space_def TAB_def NL_def Let_def)




lemma og1: "card (observed_genres [''TRABC'' @ TAB @ ''Rock'' @ NL]) = 1"
  using parsed_ex1 by (simp add: observed_genres_def)




section \<open>Confidences\<close>

lemma genres_load: "genres (load_tagtraum_dataset ls) = observed_genres ls"
  by (simp add: load_tagtraum_dataset_def load_from_genres load_init_def)

lemma two_thirds: "fdiv 2 3 = 6004799503160661 / 9007199254740992"
  by code_simp

lemma one_minus_two_thirds:
  "fsub 1 (6004799503160661 / 9007199254740992) = 3002399751580331 / 9007199254740992"
  by code_simp

lemma cd1_sum:
  "fadd (6004799503160661 / 9007199254740992) (3002399751580331 / 9007199254740992) = 1"
  by code_simp

lemma one_half: "fdiv 1 2 = 1 / 2"
  by code_simp

lemma one_minus_half: "fsub 1 (1 / 2) = 1 / 2"
  by code_simp

lemma cd2_sum: "fadd (1 / 2) (1 / 2) = 1"
  by code_simp

lemma confidence_cd1:
  assumes "is_cd1 ld"
  shows "majority_confidence ld = 6004799503160661 / 9007199254740992"
    and "minority_confidence ld = 3002399751580331 / 9007199254740992"
  using assms
  by (simp_all add: majority_confidence_def minority_confidence_def two_thirds one_minus_two_thirds)

lemma confidence_cd2:
  assumes "\<not> is_cd1 ld"
  shows "majority_confidence ld = 1 / 2" and "minority_confidence ld = 1 / 2"
  using assms
  by (simp_all add: majority_confidence_def minority_confidence_def one_half one_minus_half)

lemma track_annotation_two:
  "track_annotation ld [g1, g2] =
     Inr \<lparr>namespace = tag_namespace ld,
          data = [(0, \<lparr>time = 0, duration = 0, val = g1, confidence = majority_confidence ld\<rparr>),
                  (1, \<lparr>time = 0, duration = 0, val = g2, confidence = minority_confidence ld\<rparr>)],
          annotation_metadata = tag_metadata ld\<rparr>"
  by (simp add: track_annotation_def add_observation_def)

lemma track_annotation_one:
  "track_annotation ld [g] =
     Inr \<lparr>namespace = tag_namespace ld,
          data = [(0, \<lparr>time = 0, duration = 0, val = g, confidence = 1\<rparr>)],
          annotation_metadata = tag_metadata ld\<rparr>"
  by (simp add: track_annotation_def add_observation_def)

text \<open>
  Claim C3. For a two-vote record the annotation holds the majority event and then the
  minority event, and the float sum of their confidences is exactly \<open>1.0\<close> under every
  variant. Under cd1 the two confidences are the doubles \<open>2.0/3.0\<close> and \<open>1.0 - 2.0/3.0\<close>,
  each within \<open>2\<^sup>-\<^sup>5\<^sup>4\<close> of \<open>2/3\<close> and \<open>1/3\<close>; under cd2 and cd2c (every variant that
  is not cd1) both are \<open>1/2\<close>. For a single-vote record the only event has confidence
  \<open>1.0\<close>.
\<close>

theorem confidences_sum_to_one:
  "map (confidence \<circ> snd) (data (projr (track_annotation ld [g1, g2]))) =
       [majority_confidence ld, minority_confidence ld]
   \<and> map (val \<circ> snd) (data (projr (track_annotation ld [g1, g2]))) = [g1, g2]
   \<and> fadd (majority_confidence ld) (minority_confidence ld) = 1
   \<and> majority_confidence ld + minority_confidence ld = 1
   \<and> (is_cd1 ld \<longrightarrow> majority_confidence ld = fl (2 / 3)
         \<and> \<bar>majority_confidence ld - 2 / 3\<bar> \<le> 1 / 2 ^ 54
         \<and> \<bar>minority_confidence ld - 1 / 3\<bar> \<le> 1 / 2 ^ 54)
   \<and> (\<not> is_cd1 ld \<longrightarrow> majority_confidence ld = 1 / 2 \<and> minority_confidence ld = 1 / 2)
   \<and> map (confidence \<circ> snd) (data (projr (track_annotation ld [g]))) = [1]"
proof (cases "is_cd1 ld")
  case True
  have "fl (2 / 3) = 6004799503160661 / 9007199254740992"
    using two_thirds by (simp add: fdiv_def)
  with True show ?thesis
    by (simp add: track_annotation_two track_annotation_one confidence_cd1 cd1_sum)
next
  case False
  then show ?thesis
    by (simp add: track_annotation_two track_annotation_one confidence_cd2 cd2_sum)
qed

lemma thirteen_is_cd1: "is_cd1 (load_tagtraum_dataset thirteen)"
  by (simp add: is_cd1_def genres_load c13)

lemma single_is_not_cd1: "\<not> is_cd1 (load_tagtraum_dataset [''TRABC'' @ TAB @ ''Rock'' @ NL])"
  using og1 by (simp add: is_cd1_def genres_load)

theorem confidences_sum_to_one_witness:
  "is_cd1 (load_tagtraum_dataset thirteen)
   \<and> majority_confidence (load_tagtraum_dataset thirteen) = fl (2 / 3)
   \<and> fadd (majority_confidence (load_tagtraum_dataset thirteen))
           (minority_confidence (load_tagtraum_dataset thirteen)) = 1
   \<and> \<not> is_cd1 (load_tagtraum_dataset [''TRABC'' @ TAB @ ''Rock'' @ NL])
   \<and> majority_confidence (load_tagtraum_dataset [''TRABC'' @ TAB @ ''Rock'' @ NL]) = 1 / 2
   \<and> minority_confidence (load_tagtraum_dataset [''TRABC'' @ TAB @ ''Rock'' @ NL]) = 1 / 2"
  using thirteen_is_cd1 single_is_not_cd1
    confidences_sum_to_one[of "load_tagtraum_dataset thirteen" "''Rock''" "''Pop''" "''Rock''"]
    confidences_sum_to_one[of "load_tagtraum_dataset [''TRABC'' @ TAB @ ''Rock'' @ NL]" "''Rock''" "''Pop''" "''Rock''"]
  by blast


section \<open>The loop of the tagtraum \<open>process\<close>\<close>

lemma load_line_votes_nonempty:
  assumes "\<forall>k v. tagtraum_values st k = Some v \<longrightarrow> v \<noteq> []"
  shows "\<forall>k v. tagtraum_values (load_line l st) k = Some v \<longrightarrow> v \<noteq> []"
  using assms by (auto simp add: load_line_def Let_def)

lemma load_from_votes_nonempty:
  assumes "\<forall>k v. tagtraum_values st k = Some v \<longrightarrow> v \<noteq> []"
  shows "\<forall>k v. tagtraum_values (load_from st ls) k = Some v \<longrightarrow> v \<noteq> []"
  using assms
proof (induction ls arbitrary: st)
  case Nil
  then show ?case by (simp add: load_from_Nil)
next
  case (Cons l ls)
  show ?case unfolding load_from_Cons
    by (rule Cons.IH) (rule load_line_votes_nonempty[OF Cons.prems])
qed

lemma loaded_votes_nonempty:
  "tagtraum_values (load_tagtraum_dataset ls) k = Some v \<Longrightarrow> v \<noteq> []"
  using load_from_votes_nonempty[of load_init ls]
  by (simp add: load_tagtraum_dataset_def load_init_def)

lemma iteritems_append: "iteritems (xs @ ys) d = iteritems xs d @ iteritems ys d"
  by (simp add: iteritems_def map_filter_def)

lemma iteritems_Cons_Some: "d k = Some v \<Longrightarrow> iteritems (k # ks) d = (k, v) # iteritems ks d"
  by (simp add: iteritems_def map_filter_def)

lemma iteritems_keys: "\<forall>k \<in> set ks. d k \<noteq> None \<Longrightarrow> map fst (iteritems ks d) = ks"
proof (induction ks)
  case Nil
  then show ?case by (simp add: iteritems_def map_filter_def)
next
  case (Cons k ks)
  then show ?case by (auto simp add: iteritems_Cons_Some)
qed

lemma iteritems_lookup: "(k, v) \<in> set (iteritems ks d) \<Longrightarrow> d k = Some v"
  by (auto simp add: iteritems_def map_filter_def)

lemma process_track_ok:
  assumes "utv k = Some (a, t)" "v \<noteq> []"
  shows "\<exists>j. process_track ld utv od (k, v) = Inr (out_file od k, j)"
  using assms by (simp add: process_track_def track_annotation_def Let_def)

lemma process_tracks_prefix:
  assumes "\<forall>(k, v) \<in> set xs. utv k \<noteq> None \<and> v \<noteq> []"
  shows "\<exists>fs. map fst fs = map (out_file od \<circ> fst) xs
          \<and> process_tracks ld utv od (xs @ ys) w = process_tracks ld utv od ys (w @ fs)"
  using assms
proof (induction xs arbitrary: w)
  case Nil
  then show ?case by simp
next
  case (Cons x xs)
  obtain k v where x: "x = (k, v)" by (cases x)
  with Cons.prems obtain a t where "utv k = Some (a, t)" "v \<noteq> []" by auto
  then obtain j where j: "process_track ld utv od (k, v) = Inr (out_file od k, j)"
    using process_track_ok by blast
  from Cons.prems have "\<forall>(k, v) \<in> set xs. utv k \<noteq> None \<and> v \<noteq> []" by simp
  from Cons.IH[OF this, of "w @ [(out_file od k, j)]"]
  obtain fs where fs: "map fst fs = map (out_file od \<circ> fst) xs"
    "process_tracks ld utv od (xs @ ys) (w @ [(out_file od k, j)]) =
       process_tracks ld utv od ys ((w @ [(out_file od k, j)]) @ fs)"
    by blast
  show ?case
    by (rule exI[of _ "(out_file od k, j) # fs"]) (simp add: x j fs)
qed

lemma process_tracks_missing:
  assumes "utv k = None"
  shows "process_tracks ld utv od ((k, v) # ys) w = (w, Some (KeyError k))"
  using assms by (simp add: process_track_def)

text \<open>
  Claim C1, as the code has it. The loop of \<open>process\<close> looks every vote-bearing track up
  with \<open>unique_tracks_values[track_id]\<close> and has no exception handler. For a track \<open>t\<close>
  that has votes but no identity entry, reached after tracks \<open>pre\<close> that all have one, the
  run ends with \<open>KeyError t\<close>: the files written are exactly those of \<open>pre\<close>, no track
  after \<open>t\<close> in the iteration order is processed, and nothing is logged for the failure (the
  log holds the loaders' parse warnings only).
\<close>

theorem missing_identity_aborts_run:
  assumes "tagtraum_values (load_tagtraum_dataset tagtraum_dataset) t \<noteq> None"
    and "fst (load_msd_metadata msd_unique_tracks
               (tagtraum_values (load_tagtraum_dataset tagtraum_dataset))) t = None"
    and "\<forall>k \<in> set pre. tagtraum_values (load_tagtraum_dataset tagtraum_dataset) k \<noteq> None
           \<and> fst (load_msd_metadata msd_unique_tracks
                   (tagtraum_values (load_tagtraum_dataset tagtraum_dataset))) k \<noteq> None"
  shows "raised (process tagtraum_dataset msd_unique_tracks out_dir (pre @ t # post)) = Some (KeyError t)
       \<and> map fst (files (process tagtraum_dataset msd_unique_tracks out_dir (pre @ t # post)))
           = map (out_file out_dir) pre
       \<and> logged (process tagtraum_dataset msd_unique_tracks out_dir (pre @ t # post))
           = warnings (load_tagtraum_dataset tagtraum_dataset)
             @ snd (load_msd_metadata msd_unique_tracks
                     (tagtraum_values (load_tagtraum_dataset tagtraum_dataset)))"
proof -
  define ld where "ld = load_tagtraum_dataset tagtraum_dataset"
  define m where "m = load_msd_metadata msd_unique_tracks (tagtraum_values ld)"
  from assms(1) obtain v where v: "tagtraum_values ld t = Some v"
    by (auto simp add: ld_def)
  have items: "iteritems (pre @ t # post) (tagtraum_values ld)
      = iteritems pre (tagtraum_values ld) @ (t, v) # iteritems post (tagtraum_values ld)"
    by (simp add: iteritems_append iteritems_Cons_Some v)
  have keys: "map fst (iteritems pre (tagtraum_values ld)) = pre"
    using assms(3) by (intro iteritems_keys) (simp add: ld_def)
  have ok: "\<forall>(k, w) \<in> set (iteritems pre (tagtraum_values ld)). fst m k \<noteq> None \<and> w \<noteq> []"
  proof (clarify, rule conjI)
    fix k w assume kw: "(k, w) \<in> set (iteritems pre (tagtraum_values ld))"
    then have "k \<in> set (map fst (iteritems pre (tagtraum_values ld)))" by force
    then have "k \<in> set pre" by (simp add: keys)
    with assms(3) show "fst m k \<noteq> None" by (simp add: m_def ld_def)
    from kw have "tagtraum_values ld k = Some w" by (rule iteritems_lookup)
    then show "w \<noteq> []" unfolding ld_def by (rule loaded_votes_nonempty)
  qed
  from process_tracks_prefix[OF ok, of out_dir ld "(t, v) # iteritems post (tagtraum_values ld)" "[]"]
  obtain fs where fs: "map fst fs = map (out_file out_dir \<circ> fst) (iteritems pre (tagtraum_values ld))"
    "process_tracks ld (fst m) out_dir (iteritems (pre @ t # post) (tagtraum_values ld)) []
       = process_tracks ld (fst m) out_dir ((t, v) # iteritems post (tagtraum_values ld)) fs"
    by (auto simp add: items)
  have none: "fst m t = None"
    using assms(2) by (simp add: m_def ld_def)
  have r: "process_tracks ld (fst m) out_dir (iteritems (pre @ t # post) (tagtraum_values ld)) []
      = (fs, Some (KeyError t))"
    unfolding fs(2) by (rule process_tracks_missing) (rule none)
  have "map fst fs = map (out_file out_dir) pre"
    using fs(1) keys by (metis map_map)
  then show ?thesis
    using r by (simp add: process_def Let_def ld_def[symmetric] m_def[symmetric])
qed

lemma votes_ex_loaded:
  "load_tagtraum_dataset votes_ex =
     \<lparr>tagtraum_values = [''TRAAA'' \<mapsto> [''Rock''], ''TRBBB'' \<mapsto> [''Pop'']],
      genres = {''Pop'', ''Rock''}, has_minority_genres = False, warnings = []\<rparr>"
  by (simp add: votes_ex_def load_tagtraum_dataset_def load_from_def load_init_def load_line_def
      startswith_def py_strip_def strip_chars_def is_space_def TAB_def NL_def Let_def)

lemma msd_ex_loaded:
  "load_msd_metadata msd_ex [''TRAAA'' \<mapsto> [''Rock''], ''TRBBB'' \<mapsto> [''Pop'']]
     = ([''TRBBB'' \<mapsto> (''Artist X'', ''Song Y'')], [])"
  by (simp add: msd_ex_def load_msd_metadata_def msd_line_def
      startswith_def py_strip_def strip_chars_def is_space_def NL_def Let_def)

theorem missing_identity_counterexample:
  "tagtraum_values (load_tagtraum_dataset votes_ex) ''TRBBB'' = Some [''Pop'']
   \<and> fst (load_msd_metadata msd_ex (tagtraum_values (load_tagtraum_dataset votes_ex))) ''TRBBB''
       = Some (''Artist X'', ''Song Y'')
   \<and> fst (load_msd_metadata msd_ex (tagtraum_values (load_tagtraum_dataset votes_ex))) ''TRAAA'' = None
   \<and> process votes_ex msd_ex ''out'' [''TRAAA'', ''TRBBB'']
       = \<lparr>files = [], raised = Some (KeyError ''TRAAA''), logged = []\<rparr>
   \<and> raised (process votes_ex msd_ex ''out'' [''TRBBB'', ''TRAAA'']) = Some (KeyError ''TRAAA'')
   \<and> logged (process votes_ex msd_ex ''out'' [''TRBBB'', ''TRAAA'']) = []"
  by (simp add: process_def votes_ex_loaded msd_ex_loaded iteritems_def map_filter_def
      process_track_def track_annotation_def Let_def)

theorem missing_identity_aborts_run_witness:
  "tagtraum_values (load_tagtraum_dataset votes_ex) ''TRAAA'' \<noteq> None
   \<and> fst (load_msd_metadata msd_ex (tagtraum_values (load_tagtraum_dataset votes_ex))) ''TRAAA'' = None
   \<and> raised (process votes_ex msd_ex ''out'' ([''TRBBB''] @ ''TRAAA'' # [])) = Some (KeyError ''TRAAA'')
   \<and> map fst (files (process votes_ex msd_ex ''out'' ([''TRBBB''] @ ''TRAAA'' # [])))
       = [''out/B/B/B/TRBBB.jams'']"
proof -
  have a: "tagtraum_values (load_tagtraum_dataset votes_ex) ''TRAAA'' \<noteq> None"
    by (simp add: votes_ex_loaded)
  have b: "fst (load_msd_metadata msd_ex (tagtraum_values (load_tagtraum_dataset votes_ex))) ''TRAAA'' = None"
    by (simp add: votes_ex_loaded msd_ex_loaded)
  have c: "\<forall>k \<in> set [''TRBBB'']. tagtraum_values (load_tagtraum_dataset votes_ex) k \<noteq> None
           \<and> fst (load_msd_metadata msd_ex (tagtraum_values (load_tagtraum_dataset votes_ex))) k \<noteq> None"
    by (simp add: votes_ex_loaded msd_ex_loaded)
  have d: "out_file ''out'' ''TRBBB'' = ''out/B/B/B/TRBBB.jams''"
    by (simp add: out_file_def os_path_join_def slice_def startswith_def)
  show ?thesis
    using missing_identity_aborts_run[OF a b c, of "''out''" "[]"] a b by (simp add: d)
qed


section \<open>Frames built from lab files\<close>

lemma add_observation_fresh:
  assumes "map fst fr = [0..<length fr]"
  shows "add_observation ob fr = fr @ [(length fr, ob)]"
proof -
  have "fst ` set fr = {0..<length fr}"
    using assms by (metis set_map set_upt)
  then show ?thesis by (simp add: add_observation_def)
qed

lemma fold_add_observation:
  assumes "map fst fr = [0..<length fr]"
  shows "fold add_observation rows fr = fr @ enumerate (length fr) rows"
  using assms
proof (induction rows arbitrary: fr)
  case Nil
  then show ?case by simp
next
  case (Cons r rows)
  have "map fst (fr @ [(length fr, r)]) = [0..<length (fr @ [(length fr, r)])]"
    using Cons.prems by simp
  from Cons.IH[OF this] show ?case
    by (simp add: add_observation_fresh[OF Cons.prems])
qed

lemma import_frame_enumerate: "import_frame rows = enumerate 0 rows"
  using fold_add_observation[of "[]" rows] by (simp add: import_frame_def)

lemma map_of_enumerate:
  assumes "i < length xs"
  shows "map_of (enumerate 0 xs) i = Some (xs ! i)"
  using assms map_of_zip_nth[of "[0..<length xs]" xs i]
  by (simp add: enumerate_eq_zip)

lemma fold_loc_set_value:
  assumes "distinct (map fst ups)"
  shows "fold (\<lambda>(i, l). loc_set_value i (g l)) ups fr =
     map (\<lambda>(k, r). case map_of ups k of None \<Rightarrow> (k, r) | Some l \<Rightarrow> (k, r\<lparr>val := g l\<rparr>)) fr"
  using assms
proof (induction ups arbitrary: fr)
  case Nil
  then show ?case by simp
next
  case (Cons u ups)
  obtain i l where u: "u = (i, l)" by (cases u)
  from Cons.prems u have fresh: "map_of ups i = None" and d: "distinct (map fst ups)"
    by (simp_all add: map_of_eq_None_iff)
  have "fold (\<lambda>(i, l). loc_set_value i (g l)) (u # ups) fr
      = fold (\<lambda>(i, l). loc_set_value i (g l)) ups (loc_set_value i (g l) fr)"
    by (simp add: u)
  also have "\<dots> = map (\<lambda>(k, r). case map_of ups k of None \<Rightarrow> (k, r) | Some l \<Rightarrow> (k, r\<lparr>val := g l\<rparr>))
      (loc_set_value i (g l) fr)"
    by (rule Cons.IH[OF d])
  also have "\<dots> = map (\<lambda>(k, r). case map_of (u # ups) k of None \<Rightarrow> (k, r) | Some l \<Rightarrow> (k, r\<lparr>val := g l\<rparr>)) fr"
    unfolding loc_set_value_def map_map
    by (rule map_cong) (auto simp add: u fresh)
  finally show ?case .
qed

lemma relabel_enumerate:
  "fold (\<lambda>(i, l). loc_set_value i (g l)) (column val (enumerate 0 rows)) (enumerate 0 rows)
     = enumerate 0 (map (\<lambda>r. r\<lparr>val := g (val r)\<rparr>) rows)"
proof -
  have c: "column val (enumerate 0 rows) = enumerate 0 (map val rows)"
    by (simp add: column_def map_snd_enumerate flip: map_map)
  have d: "distinct (map fst (enumerate 0 (map val rows)))"
    by simp
  show ?thesis
    unfolding c fold_loc_set_value[OF d]
    by (rule nth_equalityI) (simp_all add: nth_enumerate_eq map_of_enumerate)
qed

lemma fix_labels_import:
  "fix_labels d (import_frame rows) = import_frame (map (\<lambda>r. r\<lparr>val := dict_get d (val r)\<rparr>) rows)"
  by (simp add: fix_labels_def import_frame_enumerate relabel_enumerate)

lemma fix_beats_values_import:
  "fix_beats_values parse (import_frame rows) =
     import_frame (map (\<lambda>r. r\<lparr>val := to_float parse (val r)\<rparr>) rows)"
  by (simp add: fix_beats_values_def import_frame_enumerate relabel_enumerate)

lemma total_seconds_sign: "total_seconds d \<le> 0 \<longleftrightarrow> d \<le> 0" "0 < total_seconds d \<longleftrightarrow> 0 < d"
  by (simp_all add: total_seconds_def)

lemma fix_ranges_import:
  "fix_ranges (import_frame rows) = Inr (filter (\<lambda>(k, r). 0 < duration r) (import_frame rows))"
proof -
  let ?idxs = "map fst (filter (\<lambda>(i, dur). total_seconds dur \<le> 0) (enumerate 0 (map duration rows)))"
  have c: "column duration (enumerate 0 rows) = enumerate 0 (map duration rows)"
    by (simp add: column_def map_snd_enumerate flip: map_map)
  have idxs: "set ?idxs = {i. i < length rows \<and> duration (rows ! i) \<le> 0}"
    by (auto simp add: in_set_enumerate_eq total_seconds_sign image_iff)
  have labels: "fst ` set (enumerate 0 rows) = {0..<length rows}"
    by (metis add_0 list.set_map map_fst_enumerate set_upt)
  have present: "\<forall>i \<in> set ?idxs. i \<in> fst ` set (enumerate 0 rows)"
    unfolding idxs labels by simp
  have keep: "filter (\<lambda>(k, r). k \<notin> set ?idxs) (enumerate 0 rows)
      = filter (\<lambda>(k, r). 0 < duration r) (enumerate 0 rows)"
    unfolding idxs
    by (rule filter_cong) (auto simp add: in_set_enumerate_eq)
  show ?thesis
    unfolding import_frame_enumerate fix_ranges_def c drop_labels_def
    using present keep by simp
qed


section \<open>The passes on a lab file\<close>

lemma drop_labels_subset: "drop_labels idxs fr = Inr fr' \<Longrightarrow> set fr' \<subseteq> set fr"
  by (auto simp add: drop_labels_def split: if_splits)

lemma fix_silence_subset: "fix_silence fr = Inr fr' \<Longrightarrow> set fr' \<subseteq> set fr"
  by (auto simp add: fix_silence_def split: sum.splits dest: drop_labels_subset)

lemma chord_passes_import:
  "chord_passes (import_frame rows) =
     Inr (filter (\<lambda>(k, r). 0 < duration r)
           (import_frame (map (\<lambda>r. r\<lparr>val := dict_get CHORDS_DICT (val r)\<rparr>) rows)))"
  by (simp add: chord_passes_def fix_chord_labels_def fix_labels_import fix_ranges_import)

lemma segment_passes_import:
  "segment_passes (import_frame rows) = Inr (filter (\<lambda>(k, r). 0 < duration r) (import_frame rows))"
  by (simp add: segment_passes_def fix_ranges_import)

lemma key_passes_import:
  "key_passes (import_frame rows) =
     fix_silence (filter (\<lambda>(k, r). 0 < duration r)
           (import_frame (map (\<lambda>r. r\<lparr>val := dict_get KEYS_DICT (val r)\<rparr>) rows)))"
  by (simp add: key_passes_def fix_key_labels_def fix_labels_import fix_ranges_import)

lemma silence_idxs_labels:
  assumes "\<forall>(i, v) \<in> set xs. \<exists>s. v = Str s"
  shows "\<exists>idxs. silence_idxs xs = Inr idxs \<and> set idxs \<subseteq> fst ` set xs"
  using assms
proof (induction xs rule: silence_idxs.induct)
  case 1
  then show ?case by simp
next
  case (2 i s rest)
  then obtain idxs where "silence_idxs rest = Inr idxs" "set idxs \<subseteq> fst ` set rest"
    by auto
  then show ?case by auto
qed simp_all

lemma dict_get_Str: "\<exists>s'. dict_get d (Str s) = Str s'"
  by (simp add: dict_get_def split: option.splits)

lemma key_passes_returns:
  assumes "\<forall>r \<in> set rows. 0 < duration r \<and> (\<exists>s. val r = Str s)"
  shows "\<exists>fr. key_passes (import_frame rows) = Inr fr"
proof -
  let ?rows = "map (\<lambda>r. r\<lparr>val := dict_get KEYS_DICT (val r)\<rparr>) rows"
  have all: "filter (\<lambda>(k, r). 0 < duration r) (import_frame ?rows) = import_frame ?rows"
    using assms by (auto simp add: import_frame_enumerate in_set_enumerate_eq filter_id_conv)
  have strs: "\<forall>(i, v) \<in> set (column val (import_frame ?rows)). \<exists>s. v = Str s"
    using assms dict_get_Str
    by (auto simp add: column_def import_frame_enumerate in_set_enumerate_eq map_snd_enumerate simp flip: map_map)
         (metis nth_mem)
  from silence_idxs_labels[OF strs] obtain idxs where
    idxs: "silence_idxs (column val (import_frame ?rows)) = Inr idxs"
      "set idxs \<subseteq> fst ` set (column val (import_frame ?rows))"
    by blast
  have "fst ` set (column val (import_frame ?rows)) = fst ` set (import_frame ?rows)"
    by (simp add: column_def import_frame_enumerate map_snd_enumerate flip: map_map set_map)
  with idxs(2) have "\<forall>i \<in> set idxs. i \<in> fst ` set (import_frame ?rows)"
    by blast
  then show ?thesis
    unfolding key_passes_import all fix_silence_def idxs(1)
    by (simp add: drop_labels_def)
qed

text \<open>
  Claim C5. After normalization every event of a chord, key or segment annotation set has a
  duration greater than zero, so no input event of non-positive duration is in the output.
  For a chord and for a segment file the passes always return, and keep exactly the rows of
  positive duration (under their labels); for a key file every row of a returned frame has a
  positive duration, and the passes do return when all rows of the file have a positive
  duration and a string value.
\<close>

theorem normalized_durations_positive:
  "(\<exists>fr. chord_passes (import_frame rows) = Inr fr
        \<and> (\<forall>(k, r) \<in> set fr. 0 < total_seconds (duration r))
        \<and> map fst fr = map fst (filter (\<lambda>(k, r). 0 < total_seconds (duration r)) (import_frame rows)))
   \<and> segment_passes (import_frame rows)
        = Inr (filter (\<lambda>(k, r). 0 < total_seconds (duration r)) (import_frame rows))
   \<and> (\<forall>fr. key_passes (import_frame rows) = Inr fr
          \<longrightarrow> (\<forall>(k, r) \<in> set fr. 0 < total_seconds (duration r)))
   \<and> ((\<forall>r \<in> set rows. 0 < duration r \<and> (\<exists>s. val r = Str s))
          \<longrightarrow> (\<exists>fr. key_passes (import_frame rows) = Inr fr))"
proof (intro conjI allI impI)
  let ?c = "filter (\<lambda>(k, r). 0 < duration r)
           (import_frame (map (\<lambda>r. r\<lparr>val := dict_get CHORDS_DICT (val r)\<rparr>) rows))"
  have "map fst ?c = map fst (filter (\<lambda>(k, r). 0 < total_seconds (duration r)) (import_frame rows))"
    unfolding import_frame_enumerate total_seconds_sign
    by (induction rows rule: rev_induct) (simp_all add: enumerate_append_eq)
  then show "\<exists>fr. chord_passes (import_frame rows) = Inr fr
        \<and> (\<forall>(k, r) \<in> set fr. 0 < total_seconds (duration r))
        \<and> map fst fr = map fst (filter (\<lambda>(k, r). 0 < total_seconds (duration r)) (import_frame rows))"
    by (intro exI[of _ ?c]) (auto simp add: chord_passes_import total_seconds_sign)
next
  show "segment_passes (import_frame rows)
        = Inr (filter (\<lambda>(k, r). 0 < total_seconds (duration r)) (import_frame rows))"
    by (simp add: segment_passes_import total_seconds_sign)
next
  fix fr assume "key_passes (import_frame rows) = Inr fr"
  then have "set fr \<subseteq> set (filter (\<lambda>(k, r). 0 < duration r)
           (import_frame (map (\<lambda>r. r\<lparr>val := dict_get KEYS_DICT (val r)\<rparr>) rows)))"
    unfolding key_passes_import by (rule fix_silence_subset)
  then show "\<forall>(k, r) \<in> set fr. 0 < total_seconds (duration r)"
    by (auto simp add: total_seconds_sign)
next
  assume "\<forall>r \<in> set rows. 0 < duration r \<and> (\<exists>s. val r = Str s)"
  then show "\<exists>fr. key_passes (import_frame rows) = Inr fr"
    by (rule key_passes_returns)
qed


theorem normalized_durations_positive_witness:
  "segment_passes (import_frame [row 0 0 ''N'', row 0 1000000000 ''E:4''])
     = Inr [(1, row 0 1000000000 ''E:4'')]
   \<and> 0 < duration (row 0 1000000000 ''C'')
   \<and> (\<exists>fr. key_passes (import_frame [row 0 1000000000 ''C'']) = Inr fr)"
  using normalized_durations_positive[of "[row 0 0 ''N'', row 0 1000000000 ''E:4'']"]
    normalized_durations_positive[of "[row 0 1000000000 ''C'']"]
  by (simp add: import_frame_enumerate row_def total_seconds_def)

text \<open>
  Claim C6 at a key file with a zero-length first row: \<open>fix_ranges\<close> drops the row under
  label 0 and leaves the labels 1 and 2; \<open>fix_silence\<close> then finds the silence at position 1
  and drops the row under label 1, which is the key \<open>C\<close>. The silence stays.
\<close>

theorem silence_pass_drops_wrong_row:
  "key_passes (import_frame [row 0 0 ''N'', row 0 1000000000 ''C'',
                              row 1000000000 1000000000 ''silence''])
     = Inr [(2, row 1000000000 1000000000 ''silence'')]"
  unfolding key_passes_import
  by (simp add: import_frame_enumerate row_def dict_get_def KEYS_DICT_def
      fix_silence_def column_def lower_def lower_char_def drop_labels_def numeral_2_eq_2)


section \<open>The loop of the Isophonics \<open>process\<close>\<close>

lemma process_files_append:
  "process_files parse labs in_dir out_dir (xs @ ys) st =
     (case process_files parse labs in_dir out_dir xs st of
        Inl e \<Rightarrow> Inl e
      | Inr st' \<Rightarrow> process_files parse labs in_dir out_dir ys st')"
  by (induction xs arbitrary: st) (simp_all split: sum.splits)

text \<open>
  Claim C4, as the code has it. For a non-empty frame the derived duration is the time of the
  last row plus its duration, in seconds. \<open>process\<close> derives it for a chord and for a
  segment file from the frame left by the passes, that is from the rows of positive duration:
  when one is left, the file metadata gets the duration of the last of them. When none is
  left, \<open>iloc[-1]\<close> raises \<open>IndexError\<close>: the duration does not stay unset, the run ends with
  the exception.
\<close>

theorem duration_from_last_event:
  "(fr \<noteq> [] \<longrightarrow>
      get_duration_from_annot fr = Inr (total_seconds (time (snd (last fr)) + duration (snd (last fr)))))
   \<and> get_duration_from_annot ([] :: val frame) = Inl IndexError
   \<and> (\<not> contains ''beat'' lab_file \<and> contains ''chordlab'' lab_file \<longrightarrow>
        (let fr = filter (\<lambda>(k, r). 0 < duration r)
                    (import_frame (map (\<lambda>r. r\<lparr>val := dict_get CHORDS_DICT (val r)\<rparr>) rows))
         in annotate parse rows lab_file jam =
              (if fr = [] then Inl IndexError
               else Inr ((set_last_data fr (import_lab ''chord_harte'' rows jam))
                      \<lparr>file_duration :=
                         Some (total_seconds (time (snd (last fr)) + duration (snd (last fr))))\<rparr>))))
   \<and> (\<not> contains ''beat'' lab_file \<and> \<not> contains ''chordlab'' lab_file
        \<and> \<not> contains ''keylab'' lab_file \<and> contains ''seglab'' lab_file \<longrightarrow>
        (let fr = filter (\<lambda>(k, r). 0 < duration r) (import_frame rows)
         in annotate parse rows lab_file jam =
              (if fr = [] then Inl IndexError
               else Inr ((set_last_data fr (import_lab ''segment_isophonics'' rows jam))
                      \<lparr>file_duration :=
                         Some (total_seconds (time (snd (last fr)) + duration (snd (last fr))))\<rparr>))))"
  by (simp add: get_duration_from_annot_def annotate_def chord_passes_import segment_passes_import
      Let_def)

lemma contains_seg:
  "\<not> contains ''beat'' ''root/seglab/Artist/a.lab''"
  "\<not> contains ''chordlab'' ''root/seglab/Artist/a.lab''"
  "\<not> contains ''keylab'' ''root/seglab/Artist/a.lab''"
  "contains ''seglab'' ''root/seglab/Artist/a.lab''"
  by (simp_all add: startswith_def)

lemma filebase_seg: "filebase ''root/seglab/Artist/a.lab'' = ''a''"
  by (simp add: filebase_def basename_def splitext_root_def)

lemma parts_seg: "path_parts ''root'' ''root/seglab/Artist/a.lab'' = [''seglab'', ''Artist'', ''a.lab'']"
  by (simp add: path_parts_def py_replace_def strip_chars_def startswith_def)

lemma process_file_annotate_fails:
  assumes "\<forall>jam. annotate parse (labs f) f jam = Inl e"
    and "all_jams st (filebase f) = None"
    and "2 \<le> length (path_parts in_dir f)"
  shows "process_file parse labs in_dir out_dir f st = Inl e"
proof -
  from assms(3) obtain st1 jam where
    "new_track in_dir out_dir f st = Inr st1" "all_jams st1 (filebase f) = Some jam"
    by (auto simp add: new_track_def Let_def)
  then show ?thesis
    using assms(1,2) by (simp add: process_file_def)
qed


lemma segment_zero_length: "segment_passes (import_frame [row 0 0 ''N'']) = Inr []"
  unfolding segment_passes_import by (simp add: import_frame_enumerate row_def)

lemma annotate_zero_length_segment:
  "annotate parse [row 0 0 ''N''] ''root/seglab/Artist/a.lab'' jam = Inl IndexError"
proof -
  have "annotate parse [row 0 0 ''N''] ''root/seglab/Artist/a.lab'' jam =
     (case segment_passes (import_frame [row 0 0 ''N'']) of
           Inl e \<Rightarrow> Inl e
         | Inr fr \<Rightarrow>
             (case get_duration_from_annot fr of
                Inl e \<Rightarrow> Inl e
              | Inr dur \<Rightarrow>
                  Inr ((set_last_data fr (import_lab ''segment_isophonics'' [row 0 0 ''N''] jam))
                         \<lparr>file_duration := Some dur\<rparr>)))"
    by (simp only: annotate_def contains_seg if_True if_False)
  then show ?thesis
    by (simp only: segment_zero_length) (simp add: get_duration_from_annot_def)
qed

theorem empty_set_duration_counterexample:
  "segment_passes (import_frame [row 0 0 ''N'']) = Inr []
   \<and> iso_process (\<lambda>s. None) (\<lambda>f. [row 0 0 ''N'']) ''root'' ''out'' [''root/seglab/Artist/a.lab'']
       = Inl IndexError"
proof -
  have a: "\<forall>jam. annotate (\<lambda>s. None) ((\<lambda>f. [row 0 0 ''N'']) ''root/seglab/Artist/a.lab'')
      ''root/seglab/Artist/a.lab'' jam = Inl IndexError"
    by (simp only: annotate_zero_length_segment) simp
  have b: "all_jams iso_init (filebase ''root/seglab/Artist/a.lab'') = None"
    by (simp only: filebase_seg) (simp add: iso_init_def)
  have c: "2 \<le> length (path_parts ''root'' ''root/seglab/Artist/a.lab'')"
    by (simp only: parts_seg) simp
  have "process_file (\<lambda>s. None) (\<lambda>f. [row 0 0 ''N'']) ''root'' ''out''
      ''root/seglab/Artist/a.lab'' iso_init = Inl IndexError"
    using a b c by (rule process_file_annotate_fails)
  then have "iso_process (\<lambda>s. None) (\<lambda>f. [row 0 0 ''N'']) ''root'' ''out''
      [''root/seglab/Artist/a.lab''] = Inl IndexError"
    by (simp only: iso_process_def process_files.simps sum.case)
  with segment_zero_length show ?thesis by (rule conjI)
qed

theorem duration_from_last_event_witness:
  "get_duration_from_annot (import_frame [row 0 1000000000 ''A'', row 1000000000 500000000 ''B''])
     = Inr (3 / 2)
   \<and> file_duration (projr (annotate (\<lambda>s. None) [row 0 1000000000 ''A'', row 1000000000 500000000 ''B'']
        ''root/seglab/Artist/a.lab''
        \<lparr>artist = ''Artist'', title = ''a'', file_duration = None, identifiers = None,
         annotations = []\<rparr>)) = Some (3 / 2)"
proof -
  let ?rows = "[row 0 1000000000 ''A'', row 1000000000 500000000 ''B'']"
  let ?jam = "\<lparr>artist = ''Artist'', title = ''a'', file_duration = None, identifiers = None,
         annotations = ([] :: val annotation list)\<rparr>"
  let ?fr = "[(0, row 0 1000000000 ''A''), (Suc 0, row 1000000000 500000000 ''B'')]"
  note t = duration_from_last_event[of "import_frame ?rows" "''root/seglab/Artist/a.lab''" ?rows
      "\<lambda>s. None" ?jam]
  have fr: "import_frame ?rows = ?fr"
    by (simp add: import_frame_enumerate)
  have kept: "filter (\<lambda>(k, r). 0 < duration r) ?fr = ?fr"
    by (simp add: row_def)
  have d: "total_seconds (time (snd (last ?fr)) + duration (snd (last ?fr))) = 3 / 2"
    by (simp add: row_def total_seconds_def)
  from t have "get_duration_from_annot (import_frame ?rows)
      = Inr (total_seconds (time (snd (last (import_frame ?rows)))
                            + duration (snd (last (import_frame ?rows)))))"
    unfolding fr by simp
  then have one: "get_duration_from_annot (import_frame ?rows) = Inr (3 / 2)"
    unfolding fr d .
  from t contains_seg
  have "let fr = filter (\<lambda>(k, r). 0 < duration r) (import_frame ?rows)
         in annotate (\<lambda>s. None) ?rows ''root/seglab/Artist/a.lab'' ?jam =
              (if fr = [] then Inl IndexError
               else Inr ((set_last_data fr (import_lab ''segment_isophonics'' ?rows ?jam))
                      \<lparr>file_duration :=
                         Some (total_seconds (time (snd (last fr)) + duration (snd (last fr))))\<rparr>))"
    by blast
  then have "annotate (\<lambda>s. None) ?rows ''root/seglab/Artist/a.lab'' ?jam =
      Inr ((set_last_data ?fr (import_lab ''segment_isophonics'' ?rows ?jam))
                      \<lparr>file_duration := Some (3 / 2)\<rparr>)"
    unfolding Let_def fr kept d by simp
  then have two: "file_duration (projr (annotate (\<lambda>s. None) ?rows ''root/seglab/Artist/a.lab'' ?jam))
      = Some (3 / 2)"
    by simp
  from one two show ?thesis by (rule conjI)
qed


lemma process_file_shallow:
  assumes "all_jams st (filebase f) = None" and "length (path_parts in_dir f) < 2"
  shows "process_file parse labs in_dir out_dir f st = Inl IndexError"
  using assms by (simp add: process_file_def new_track_def Let_def)

text \<open>
  Claim C8, as the code has it. A file of a track not yet in \<open>all_jams\<close> whose path, taken
  relative to the input directory, has fewer than two parts is not reported and skipped:
  \<open>parts[1]\<close> raises \<open>IndexError\<close>, nothing catches it, and the run ends there, whatever
  files were processed before and whatever files remain. No JAMS file is saved, since saving
  starts after the loop.
\<close>

theorem shallow_path_aborts_run:
  assumes "process_files parse labs in_dir out_dir pre iso_init = Inr st"
    and "all_jams st (filebase f) = None"
    and "length (path_parts in_dir f) < 2"
  shows "process_file parse labs in_dir out_dir f st = Inl IndexError
       \<and> iso_process parse labs in_dir out_dir (pre @ f # rest) = Inl IndexError"
proof -
  have "process_file parse labs in_dir out_dir f st = Inl IndexError"
    using assms(2,3) by (rule process_file_shallow)
  then show ?thesis
    by (simp add: iso_process_def process_files_append assms(1))
qed

lemma filebase_x: "filebase ''root/x.lab'' = ''x''"
  by (simp add: filebase_def basename_def splitext_root_def)

lemma parts_x: "path_parts ''root'' ''root/x.lab'' = [''x.lab'']"
  by (simp add: path_parts_def py_replace_def strip_chars_def startswith_def)

theorem shallow_path_counterexample:
  "length (path_parts ''root'' ''root/x.lab'') = 1
   \<and> iso_process (\<lambda>s. None) (\<lambda>f. [row 0 1000000000 ''A'']) ''root'' ''out''
        [''root/x.lab'', ''root/seglab/Artist/a.lab''] = Inl IndexError"
proof -
  have a: "all_jams iso_init (filebase ''root/x.lab'') = None"
    by (simp only: filebase_x) (simp add: iso_init_def)
  have b: "length (path_parts ''root'' ''root/x.lab'') < 2"
    by (simp only: parts_x) simp
  have "process_file (\<lambda>s. None) (\<lambda>f. [row 0 1000000000 ''A'']) ''root'' ''out'' ''root/x.lab'' iso_init
      = Inl IndexError"
    using a b by (rule process_file_shallow)
  then have "iso_process (\<lambda>s. None) (\<lambda>f. [row 0 1000000000 ''A'']) ''root'' ''out''
        [''root/x.lab'', ''root/seglab/Artist/a.lab''] = Inl IndexError"
    by (simp only: iso_process_def process_files.simps sum.case)
  moreover have "length (path_parts ''root'' ''root/x.lab'') = 1"
    by (simp only: parts_x) simp
  ultimately show ?thesis by simp
qed

theorem shallow_path_aborts_run_witness:
  "process_files (\<lambda>s. None) (\<lambda>f. []) ''root'' ''out'' [] iso_init = Inr iso_init
   \<and> all_jams iso_init (filebase ''root/x.lab'') = None
   \<and> length (path_parts ''root'' ''root/x.lab'') < 2
   \<and> iso_process (\<lambda>s. None) (\<lambda>f. []) ''root'' ''out'' ([] @ ''root/x.lab'' # [''root/chordlab/Artist/b.lab''])
       = Inl IndexError"
proof -
  have p: "process_files (\<lambda>s. None) (\<lambda>f. []) ''root'' ''out'' [] iso_init = Inr iso_init"
    by simp
  have a: "all_jams iso_init (filebase ''root/x.lab'') = None"
    by (simp only: filebase_x) (simp add: iso_init_def)
  have b: "length (path_parts ''root'' ''root/x.lab'') < 2"
    by (simp only: parts_x) simp
  from shallow_path_aborts_run[OF p a b, of "[''root/chordlab/Artist/b.lab'']"] p a b
  show ?thesis by blast
qed


lemma annotate_unmatched:
  assumes "\<not> contains ''beat'' f" "\<not> contains ''chordlab'' f" "\<not> contains ''keylab'' f"
    "\<not> contains ''seglab'' f"
  shows "annotate parse rows f jam = Inr jam"
  using assms by (simp add: annotate_def)

lemma map_butlast_snoc: "xs \<noteq> [] \<Longrightarrow> map f (butlast xs) @ [f (last xs)] = map f xs"
  by (induction xs) auto

lemma process_file_unmatched_new:
  assumes "\<not> contains ''beat'' f" "\<not> contains ''chordlab'' f" "\<not> contains ''keylab'' f"
    "\<not> contains ''seglab'' f"
    and "all_jams st (filebase f) = None"
    and "2 \<le> length (path_parts in_dir f)"
  shows "process_file parse labs in_dir out_dir f st = Inl IndexError"
proof -
  from assms(6) obtain st1 jam where
    "new_track in_dir out_dir f st = Inr st1" "all_jams st1 (filebase f) = Some jam"
    "annotations jam = []"
    by (auto simp add: new_track_def Let_def)
  then show ?thesis
    using assms(5) by (simp add: process_file_def annotate_unmatched[OF assms(1-4)] set_last_metadata_def)
qed

text \<open>
  Claim C9, as the code has it. A file whose path holds none of the category keywords imports
  nothing and logs nothing (the parser has no warning for it). When its track already has an
  annotation, the file is passed over: the run goes on, the log, the output paths and the
  tracks are as before, and every track keeps the namespaces, the events and the duration of
  its annotation sets; only the metadata of the track's last annotation is assigned again.
\<close>

theorem unmatched_file_keeps_events:
  assumes "\<not> contains ''beat'' f" "\<not> contains ''chordlab'' f" "\<not> contains ''keylab'' f"
    "\<not> contains ''seglab'' f"
    and "all_jams st (filebase f) = Some jam"
    and "annotations jam \<noteq> []"
  shows "\<exists>st'. process_file parse labs in_dir out_dir f st = Inr st'
      \<and> iso_log st' = iso_log st
      \<and> output_paths st' = output_paths st
      \<and> dom (all_jams st') = dom (all_jams st)
      \<and> (\<forall>t j. all_jams st t = Some j \<longrightarrow>
            (\<exists>j'. all_jams st' t = Some j'
               \<and> map data (annotations j') = map data (annotations j)
               \<and> map namespace (annotations j') = map namespace (annotations j)
               \<and> file_duration j' = file_duration j))"
proof -
  define jam' where "jam' = jam\<lparr>annotations := butlast (annotations jam) @
                      [(last (annotations jam))\<lparr>annotation_metadata := iso_metadata\<rparr>]\<rparr>"
  define st' where "st' = st\<lparr>all_jams := (all_jams st)(filebase f \<mapsto> jam')\<rparr>"
  have run: "process_file parse labs in_dir out_dir f st = Inr st'"
    using assms(5,6)
    by (simp add: process_file_def annotate_unmatched[OF assms(1-4)] set_last_metadata_def
        st'_def jam'_def)
  have d: "map data (annotations jam') = map data (annotations jam)"
    unfolding jam'_def using assms(6) by (simp add: map_butlast_snoc)
  have n: "map namespace (annotations jam') = map namespace (annotations jam)"
    unfolding jam'_def using assms(6) by (simp add: map_butlast_snoc)
  have f: "file_duration jam' = file_duration jam"
    by (simp add: jam'_def)
  have dm: "dom (all_jams st') = dom (all_jams st)"
    using assms(5) by (auto simp add: st'_def)
  have each: "\<exists>j'. all_jams st' t = Some j'
               \<and> map data (annotations j') = map data (annotations j)
               \<and> map namespace (annotations j') = map namespace (annotations j)
               \<and> file_duration j' = file_duration j"
    if "all_jams st t = Some j" for t j
  proof (cases "t = filebase f")
    case True
    with that assms(5) have "j = jam" by simp
    with True d n f show ?thesis by (simp add: st'_def)
  next
    case False
    with that show ?thesis by (simp add: st'_def)
  qed
  show ?thesis
    by (rule exI[of _ st']) (use run dm each in \<open>simp add: st'_def\<close>)
qed

lemma contains_other:
  "\<not> contains ''beat'' ''root/other/Artist/a.lab''"
  "\<not> contains ''chordlab'' ''root/other/Artist/a.lab''"
  "\<not> contains ''keylab'' ''root/other/Artist/a.lab''"
  "\<not> contains ''seglab'' ''root/other/Artist/a.lab''"
  by (simp_all add: startswith_def)

lemma filebase_other: "filebase ''root/other/Artist/a.lab'' = ''a''"
  by (simp add: filebase_def basename_def splitext_root_def)

lemma parts_other: "path_parts ''root'' ''root/other/Artist/a.lab'' = [''other'', ''Artist'', ''a.lab'']"
  by (simp add: path_parts_def py_replace_def strip_chars_def startswith_def)

theorem unmatched_file_counterexample:
  "\<not> contains ''beat'' ''root/other/Artist/a.lab''
   \<and> \<not> contains ''chordlab'' ''root/other/Artist/a.lab''
   \<and> \<not> contains ''keylab'' ''root/other/Artist/a.lab''
   \<and> \<not> contains ''seglab'' ''root/other/Artist/a.lab''
   \<and> iso_process (\<lambda>s. None) (\<lambda>f. []) ''root'' ''out'' [''root/other/Artist/a.lab'']
       = Inl IndexError"
proof -
  have a: "all_jams iso_init (filebase ''root/other/Artist/a.lab'') = None"
    by (simp only: filebase_other) (simp add: iso_init_def)
  have b: "2 \<le> length (path_parts ''root'' ''root/other/Artist/a.lab'')"
    by (simp only: parts_other) simp
  have "process_file (\<lambda>s. None) (\<lambda>f. []) ''root'' ''out'' ''root/other/Artist/a.lab'' iso_init
      = Inl IndexError"
    using contains_other a b by (rule process_file_unmatched_new)
  then have "iso_process (\<lambda>s. None) (\<lambda>f. []) ''root'' ''out'' [''root/other/Artist/a.lab'']
      = Inl IndexError"
    by (simp only: iso_process_def process_files.simps sum.case)
  with contains_other show ?thesis by blast
qed

theorem unmatched_file_keeps_events_witness:
  "\<not> contains ''beat'' ''root/other/Artist/a.lab''
   \<and> \<not> contains ''chordlab'' ''root/other/Artist/a.lab''
   \<and> \<not> contains ''keylab'' ''root/other/Artist/a.lab''
   \<and> \<not> contains ''seglab'' ''root/other/Artist/a.lab''
   \<and> all_jams state_a (filebase ''root/other/Artist/a.lab'') = Some jam_a
   \<and> annotations jam_a \<noteq> []
   \<and> (\<exists>st'. process_file (\<lambda>s. None) (\<lambda>f. []) ''root'' ''out'' ''root/other/Artist/a.lab'' state_a
              = Inr st'
           \<and> iso_log st' = iso_log state_a
           \<and> output_paths st' = output_paths state_a)"
proof -
  have a: "all_jams state_a (filebase ''root/other/Artist/a.lab'') = Some jam_a"
    by (simp only: filebase_other) (simp add: state_a_def)
  have b: "annotations jam_a \<noteq> []"
    by (simp add: jam_a_def)
  from unmatched_file_keeps_events[OF contains_other a b, of "\<lambda>s. None" "\<lambda>f. []" "''root''" "''out''"]
  have "\<exists>st'. process_file (\<lambda>s. None) (\<lambda>f. []) ''root'' ''out'' ''root/other/Artist/a.lab'' state_a
              = Inr st'
           \<and> iso_log st' = iso_log state_a
           \<and> output_paths st' = output_paths state_a"
    by blast
  with contains_other a b show ?thesis by blast
qed


end
